theory Spec2Isabelle
  imports Complex_Main "HOL-Library.Word"
begin

section \<open>Vectors and the terrain generator's data\<close>

text \<open>
  The C++ sources compute with \<open>float\<close> (and \<open>glm::vec2\<close>, \<open>glm::vec3\<close>). The model
  uses exact real numbers in their place: every arithmetic operation of the source is the
  same operation on \<open>real\<close>, without rounding, infinities or NaN. \<open>int\<close> is modelled by
  the unbounded integers (no overflow), \<open>unsigned int\<close> by \<open>32 word\<close>.
  \<open>glm::simplex\<close> is a function of the GLM library; it is a parameter \<open>simplex\<close> of every
  function that samples it.
\<close>

datatype vec2 = Vec2 (x2: real) (y2: real)

datatype vec3 = Vec3 (x3: real) (y3: real) (z3: real)

definition sub2 :: "vec2 \<Rightarrow> vec2 \<Rightarrow> vec2" where
  "sub2 a b = Vec2 (x2 a - x2 b) (y2 a - y2 b)"

definition add3 :: "vec3 \<Rightarrow> vec3 \<Rightarrow> vec3" where
  "add3 a b = Vec3 (x3 a + x3 b) (y3 a + y3 b) (z3 a + z3 b)"

definition sub3 :: "vec3 \<Rightarrow> vec3 \<Rightarrow> vec3" where
  "sub3 a b = Vec3 (x3 a - x3 b) (y3 a - y3 b) (z3 a - z3 b)"

definition scale3 :: "real \<Rightarrow> vec3 \<Rightarrow> vec3" where
  "scale3 k a = Vec3 (k * x3 a) (k * y3 a) (k * z3 a)"

definition cross3 :: "vec3 \<Rightarrow> vec3 \<Rightarrow> vec3" where
  "cross3 a b = Vec3 (y3 a * z3 b - y3 b * z3 a)
                     (z3 a * x3 b - z3 b * x3 a)
                     (x3 a * y3 b - x3 b * y3 a)"

definition length2 :: "vec2 \<Rightarrow> real" where
  "length2 v = sqrt (x2 v * x2 v + y2 v * y2 v)"

definition length3 :: "vec3 \<Rightarrow> real" where
  "length3 v = sqrt (x3 v * x3 v + y3 v * y3 v + z3 v * z3 v)"

text \<open>\<open>glm::normalize(v)\<close> is \<open>v * inversesqrt(dot(v, v))\<close>.\<close>

definition normalize3 :: "vec3 \<Rightarrow> vec3" where
  "normalize3 v = scale3 (1 / sqrt (x3 v * x3 v + y3 v * y3 v + z3 v * z3 v)) v"

text \<open>\<open>glm::mix(a, b, t)\<close> is \<open>a * (1 - t) + b * t\<close>.\<close>

definition mix3 :: "vec3 \<Rightarrow> vec3 \<Rightarrow> real \<Rightarrow> vec3" where
  "mix3 a b t = add3 (scale3 (1 - t) a) (scale3 t b)"

text \<open>\<open>static_cast<int>\<close> of a floating-point value drops the fractional part.\<close>

definition static_cast_int :: "real \<Rightarrow> int" where
  "static_cast_int r = (if 0 \<le> r then \<lfloor>r\<rfloor> else \<lceil>r\<rceil>)"

record TerrainVertex =
  position :: vec3
  normal :: vec3
  texCoord :: vec2
  color :: vec3

datatype BiomeType = GRASSLAND | MOUNTAIN | DESERT | FOREST

text \<open>
  The OpenGL handles \<open>VAO\<close>, \<open>VBO\<close>, \<open>EBO\<close> of a chunk are names handed out by the
  graphics driver; the model leaves them out, and with them the calls of
  \<open>SetupChunkBuffers\<close>, which touch nothing else.
\<close>

record TerrainChunk =
  vertices :: "TerrainVertex list"
  indices :: "32 word list"
  biome :: BiomeType
  isGenerated :: bool

text \<open>An entry of \<open>m_chunks\<close> is a \<open>unique_ptr\<close>: \<open>None\<close> is the null pointer.\<close>

record TerrainGenerator =
  m_chunkSize :: int
  m_chunkScale :: real
  m_noiseScale :: real
  m_heightScale :: real
  m_octaves :: int
  m_chunks :: "TerrainChunk option list"
  m_lastCenterPos :: vec2
  m_renderDistance :: real
  m_terrainUpdated :: bool

definition TerrainGenerator_new :: "int \<Rightarrow> real \<Rightarrow> TerrainGenerator" where
  "TerrainGenerator_new chunkSize chunkScale =
     \<lparr> m_chunkSize = chunkSize, m_chunkScale = chunkScale, m_noiseScale = 0.05,
       m_heightScale = 10, m_octaves = 4, m_chunks = [],
       m_lastCenterPos = Vec2 (- 9999) (- 9999), m_renderDistance = 100,
       m_terrainUpdated = False \<rparr>"

definition SetNoiseScale :: "real \<Rightarrow> TerrainGenerator \<Rightarrow> TerrainGenerator" where
  "SetNoiseScale s g = g\<lparr>m_noiseScale := s\<rparr>"

definition SetHeightScale :: "real \<Rightarrow> TerrainGenerator \<Rightarrow> TerrainGenerator" where
  "SetHeightScale s g = g\<lparr>m_heightScale := s\<rparr>"

definition SetOctaves :: "int \<Rightarrow> TerrainGenerator \<Rightarrow> TerrainGenerator" where
  "SetOctaves n g = g\<lparr>m_octaves := n\<rparr>"

section \<open>Height field\<close>

text \<open>
  The loop of \<open>GetHeightNoise\<close>, with the number of octaves still to add as the
  recursion argument.
\<close>

fun octave_loop :: "(vec2 \<Rightarrow> real) \<Rightarrow> real \<Rightarrow> real \<Rightarrow> nat \<Rightarrow> real \<Rightarrow> real \<Rightarrow> real \<Rightarrow> real" where
  "octave_loop simplex x z 0 height amplitude frequency = height"
| "octave_loop simplex x z (Suc n) height amplitude frequency =
     octave_loop simplex x z n
       (height + simplex (Vec2 (x * frequency) (z * frequency)) * amplitude)
       (amplitude * 0.5) (frequency * 2)"

definition GetHeightNoise :: "(vec2 \<Rightarrow> real) \<Rightarrow> TerrainGenerator \<Rightarrow> real \<Rightarrow> real \<Rightarrow> real" where
  "GetHeightNoise simplex g x z =
     (let height = octave_loop simplex x z (nat (m_octaves g)) 0 (m_heightScale g) (m_noiseScale g);
          groundLevel = - 0.1
      in max height groundLevel)"

definition GetMoistureNoise :: "(vec2 \<Rightarrow> real) \<Rightarrow> TerrainGenerator \<Rightarrow> real \<Rightarrow> real \<Rightarrow> real" where
  "GetMoistureNoise simplex g x z =
     simplex (Vec2 ((x + 1000) * m_noiseScale g * 0.5) ((z + 1000) * m_noiseScale g * 0.5))"

definition DetermineBiome :: "TerrainGenerator \<Rightarrow> real \<Rightarrow> real \<Rightarrow> BiomeType" where
  "DetermineBiome g height moisture =
     (if height > m_heightScale g * 0.6 then MOUNTAIN
      else if moisture < - 0.2 then DESERT
      else if moisture > 0.3 then FOREST
      else GRASSLAND)"

definition GetBiomeColor :: "TerrainGenerator \<Rightarrow> BiomeType \<Rightarrow> real \<Rightarrow> vec3" where
  "GetBiomeColor g b height =
     (case b of
        GRASSLAND \<Rightarrow> Vec3 0.4 0.8 0.2
      | MOUNTAIN \<Rightarrow> mix3 (Vec3 0.5 0.5 0.5) (Vec3 1 1 1)
                      (max 0 ((height - m_heightScale g * 0.7) / (m_heightScale g * 0.3)))
      | DESERT \<Rightarrow> Vec3 0.9 0.8 0.4
      | FOREST \<Rightarrow> Vec3 0.2 0.6 0.1)"

definition GetHeightAt :: "(vec2 \<Rightarrow> real) \<Rightarrow> TerrainGenerator \<Rightarrow> real \<Rightarrow> real \<Rightarrow> real" where
  "GetHeightAt simplex g x z = GetHeightNoise simplex g x z"

section \<open>Placement on the terrain\<close>

text \<open>
  \<open>TerrainPlacement\<close> receives the terrain as a pointer: \<open>None\<close> is the null pointer.
  The messages written to \<open>std::cout\<close> and \<open>std::cerr\<close> are not modelled.
\<close>

definition PlaceOnTerrain :: "(vec2 \<Rightarrow> real) \<Rightarrow> vec3 \<Rightarrow> TerrainGenerator option \<Rightarrow> real \<Rightarrow> vec3" where
  "PlaceOnTerrain simplex pos terrain objectHeight =
     (case terrain of
        None \<Rightarrow> pos
      | Some t \<Rightarrow>
          (let terrainHeight = GetHeightAt simplex t (x3 pos) (z3 pos);
               safetyOffset = 1;
               adjustedY = terrainHeight + objectHeight + safetyOffset;
               minHeight = 0.5
           in Vec3 (x3 pos) (if adjustedY < minHeight then minHeight else adjustedY) (z3 pos)))"

text \<open>
  \<open>GetAreaHeightVariation\<close>: the loop over \<open>i = 0, ..., checkPoints - 1\<close> is a fold over
  \<open>[0..<checkPoints]\<close> with \<open>maxDiff\<close> as the accumulator.
  The unqualified \<open>abs\<close> of the source is read as the floating-point overload, and
  \<open>M_PI\<close> as \<open>\<pi>\<close>.
\<close>

definition check_sample :: "vec3 \<Rightarrow> real \<Rightarrow> nat \<Rightarrow> nat \<Rightarrow> vec2" where
  "check_sample center checkRadius checkPoints i =
     (let angle = (2 * pi * real i) / real checkPoints
      in Vec2 (x3 center + checkRadius * cos angle) (z3 center + checkRadius * sin angle))"

definition GetAreaHeightVariation :: "(vec2 \<Rightarrow> real) \<Rightarrow> vec3 \<Rightarrow> TerrainGenerator option \<Rightarrow> real \<Rightarrow> real" where
  "GetAreaHeightVariation simplex center terrain checkRadius =
     (case terrain of
        None \<Rightarrow> 0
      | Some t \<Rightarrow>
          (let centerHeight = GetHeightAt simplex t (x3 center) (z3 center);
               checkPoints = 8
           in fold (\<lambda>i maxDiff.
                      let p = check_sample center checkRadius checkPoints i;
                          checkHeight = GetHeightAt simplex t (x2 p) (y2 p);
                          heightDiff = \<bar>checkHeight - centerHeight\<bar>
                      in max maxDiff heightDiff)
                [0..<checkPoints] 0))"

definition IsPositionFlat :: "(vec2 \<Rightarrow> real) \<Rightarrow> vec3 \<Rightarrow> TerrainGenerator option \<Rightarrow> real \<Rightarrow> bool" where
  "IsPositionFlat simplex pos terrain tolerance =
     (case terrain of
        None \<Rightarrow> False
      | Some t \<Rightarrow> GetAreaHeightVariation simplex pos terrain 2 \<le> tolerance)"

section \<open>Chunk construction\<close>

text \<open>
  \<open>GenerateChunkVertices\<close>: the two nested loops that push vertices run over
  \<open>z = 0, ..., m_chunkSize - 1\<close> (outer) and \<open>x = 0, ..., m_chunkSize - 1\<close> (inner);
  the loops that push indices run to \<open>m_chunkSize - 2\<close>. A bound that is not positive
  gives no iteration.
\<close>

definition chunk_vertex :: "(vec2 \<Rightarrow> real) \<Rightarrow> TerrainGenerator \<Rightarrow> real \<Rightarrow> real \<Rightarrow> real \<Rightarrow> nat \<Rightarrow> nat \<Rightarrow> TerrainVertex" where
  "chunk_vertex simplex g startX startZ stepSize x z =
     (let worldX = startX + real x * stepSize;
          worldZ = startZ + real z * stepSize;
          height = GetHeightNoise simplex g worldX worldZ
      in \<lparr> position = Vec3 worldX height worldZ,
           normal = Vec3 0 1 0,
           texCoord = Vec2 (real x / real_of_int (m_chunkSize g - 1))
                           (real z / real_of_int (m_chunkSize g - 1)),
           color = Vec3 0.5 0.5 0.5 \<rparr>)"

definition quad_indices :: "TerrainGenerator \<Rightarrow> nat \<Rightarrow> nat \<Rightarrow> 32 word list" where
  "quad_indices g x z =
     (let topLeft = (of_int (int z * m_chunkSize g + int x) :: 32 word);
          topRight = topLeft + 1;
          bottomLeft = (of_int ((int z + 1) * m_chunkSize g + int x) :: 32 word);
          bottomRight = bottomLeft + 1
      in [topLeft, bottomLeft, topRight, topRight, bottomLeft, bottomRight])"

definition GenerateChunkVertices :: "(vec2 \<Rightarrow> real) \<Rightarrow> TerrainGenerator \<Rightarrow> TerrainChunk \<Rightarrow> int \<Rightarrow> int \<Rightarrow> TerrainChunk" where
  "GenerateChunkVertices simplex g chunk chunkX chunkZ =
     (let startX = real_of_int chunkX * m_chunkScale g;
          startZ = real_of_int chunkZ * m_chunkScale g;
          stepSize = m_chunkScale g / real_of_int (m_chunkSize g - 1);
          n = nat (m_chunkSize g);
          m = nat (m_chunkSize g - 1)
      in chunk\<lparr> vertices :=
                  concat (map (\<lambda>z. map (\<lambda>x. chunk_vertex simplex g startX startZ stepSize x z) [0..<n]) [0..<n]),
                indices :=
                  concat (map (\<lambda>z. concat (map (\<lambda>x. quad_indices g x z) [0..<m])) [0..<m]) \<rparr>)"

text \<open>
  \<open>CalculateNormals\<close> reads three indices per step and the three vertices they name.
  \<open>std::vector::operator[]\<close> does not check its argument: a read past the end is
  undefined behaviour, which the model reports as \<open>None\<close>.
\<close>

definition add_normal :: "nat \<Rightarrow> vec3 \<Rightarrow> TerrainVertex list \<Rightarrow> TerrainVertex list" where
  "add_normal i n vs = vs[i := (vs ! i)\<lparr>normal := add3 (normal (vs ! i)) n\<rparr>]"

fun normals_loop :: "32 word list \<Rightarrow> TerrainVertex list \<Rightarrow> TerrainVertex list option" where
  "normals_loop [] vs = Some vs"
| "normals_loop (a # b # c # rest) vs =
     (let i0 = unat a; i1 = unat b; i2 = unat c
      in if i0 < length vs \<and> i1 < length vs \<and> i2 < length vs
         then (let v0 = position (vs ! i0);
                   v1 = position (vs ! i1);
                   v2 = position (vs ! i2);
                   n = normalize3 (cross3 (sub3 v1 v0) (sub3 v2 v0))
               in normals_loop rest (add_normal i2 n (add_normal i1 n (add_normal i0 n vs))))
         else None)"
| "normals_loop _ vs = None"

definition CalculateNormals :: "TerrainChunk \<Rightarrow> TerrainChunk option" where
  "CalculateNormals chunk =
     (case normals_loop (indices chunk) (map (\<lambda>v. v\<lparr>normal := Vec3 0 0 0\<rparr>) (vertices chunk)) of
        None \<Rightarrow> None
      | Some vs \<Rightarrow> Some (chunk\<lparr>vertices := map (\<lambda>v. v\<lparr>normal := normalize3 (normal v)\<rparr>) vs\<rparr>))"

text \<open>
  \<open>AssignBiomeColors\<close> recolours every vertex and copies the biome of the vertex at
  index \<open>size / 2\<close> into the chunk.
\<close>

definition vertex_biome :: "(vec2 \<Rightarrow> real) \<Rightarrow> TerrainGenerator \<Rightarrow> TerrainVertex \<Rightarrow> BiomeType" where
  "vertex_biome simplex g v =
     (let height = y3 (position v);
          moisture = GetMoistureNoise simplex g (x3 (position v)) (z3 (position v))
      in DetermineBiome g height moisture)"

definition AssignBiomeColors :: "(vec2 \<Rightarrow> real) \<Rightarrow> TerrainGenerator \<Rightarrow> TerrainChunk \<Rightarrow> TerrainChunk" where
  "AssignBiomeColors simplex g chunk =
     chunk\<lparr> vertices :=
              map (\<lambda>v. v\<lparr>color := GetBiomeColor g (vertex_biome simplex g v) (y3 (position v))\<rparr>)
                  (vertices chunk),
            biome :=
              (if vertices chunk = [] then biome chunk
               else vertex_biome simplex g (vertices chunk ! (length (vertices chunk) div 2))) \<rparr>"

text \<open>
  \<open>CreateChunk\<close>. Exceptions are not modelled (no allocation fails), so the
  \<open>catch\<close> branch that returns \<open>nullptr\<close> is never taken; \<open>None\<close> here is the undefined
  behaviour of \<open>CalculateNormals\<close>.
\<close>

definition CreateChunk :: "(vec2 \<Rightarrow> real) \<Rightarrow> TerrainGenerator \<Rightarrow> int \<Rightarrow> int \<Rightarrow> TerrainChunk option" where
  "CreateChunk simplex g chunkX chunkZ =
     (let chunk = \<lparr> vertices = [], indices = [], biome = GRASSLAND, isGenerated = False \<rparr>;
          chunk = GenerateChunkVertices simplex g chunk chunkX chunkZ
      in case CalculateNormals chunk of
           None \<Rightarrow> None
         | Some chunk \<Rightarrow> Some ((AssignBiomeColors simplex g chunk)\<lparr>isGenerated := True\<rparr>))"

section \<open>The chunk store\<close>

text \<open>
  The search for an existing chunk in \<open>GenerateTerrainAt\<close> reads \<open>vertices[0]\<close> of every
  chunk it passes; on a chunk without vertices that read is undefined behaviour
  (\<open>None\<close>).
\<close>

fun chunk_exists :: "real \<Rightarrow> int \<Rightarrow> int \<Rightarrow> TerrainChunk option list \<Rightarrow> bool option" where
  "chunk_exists chunkScale x z [] = Some False"
| "chunk_exists chunkScale x z (None # cs) = chunk_exists chunkScale x z cs"
| "chunk_exists chunkScale x z (Some c # cs) =
     (case vertices c of
        [] \<Rightarrow> None
      | v # _ \<Rightarrow>
          if \<bar>static_cast_int (x3 (position v) / chunkScale) - x\<bar> < 1 \<and>
             \<bar>static_cast_int (z3 (position v) / chunkScale) - z\<bar> < 1
          then Some True
          else chunk_exists chunkScale x z cs)"

text \<open>
  The body of the two nested loops over the window, for one pair \<open>(x, z)\<close>; the state is
  \<open>m_chunks\<close> and the local flag \<open>newChunksGenerated\<close>.
\<close>

definition window_cell :: "(vec2 \<Rightarrow> real) \<Rightarrow> TerrainGenerator \<Rightarrow> int \<times> int \<Rightarrow> TerrainChunk option list \<times> bool \<Rightarrow> (TerrainChunk option list \<times> bool) option" where
  "window_cell simplex g xz st =
     (case chunk_exists (m_chunkScale g) (fst xz) (snd xz) (fst st) of
        None \<Rightarrow> None
      | Some True \<Rightarrow> Some st
      | Some False \<Rightarrow>
          (case CreateChunk simplex g (fst xz) (snd xz) of
             None \<Rightarrow> None
           | Some newChunk \<Rightarrow> Some (fst st @ [Some newChunk], True)))"

fun window_loop :: "(vec2 \<Rightarrow> real) \<Rightarrow> TerrainGenerator \<Rightarrow> (int \<times> int) list \<Rightarrow> TerrainChunk option list \<times> bool \<Rightarrow> (TerrainChunk option list \<times> bool) option" where
  "window_loop simplex g [] st = Some st"
| "window_loop simplex g (xz # rest) st =
     (case window_cell simplex g xz st of
        None \<Rightarrow> None
      | Some st' \<Rightarrow> window_loop simplex g rest st')"

definition window_coords :: "int \<Rightarrow> int \<Rightarrow> (int \<times> int) list" where
  "window_coords centerChunkX centerChunkZ =
     (let radius = 3
      in List.product [centerChunkX - radius..centerChunkX + radius]
                      [centerChunkZ - radius..centerChunkZ + radius])"

definition is_distant :: "TerrainGenerator \<Rightarrow> vec2 \<Rightarrow> TerrainChunk option \<Rightarrow> bool" where
  "is_distant g centerPos c =
     (case c of
        None \<Rightarrow> True
      | Some chunk \<Rightarrow>
          if vertices chunk = [] then True
          else (let chunkCenter = position (vertices chunk ! (length (vertices chunk) div 2));
                    distance = length2 (Vec2 (x3 chunkCenter - x2 centerPos) (z3 chunkCenter - y2 centerPos))
                in distance > m_renderDistance g * 1.5))"

definition CleanupDistantChunks :: "TerrainGenerator \<Rightarrow> vec2 \<Rightarrow> TerrainGenerator" where
  "CleanupDistantChunks g centerPos =
     g\<lparr>m_chunks := filter (\<lambda>c. \<not> is_distant g centerPos c) (m_chunks g)\<rparr>"

definition center_chunk :: "TerrainGenerator \<Rightarrow> vec2 \<Rightarrow> int \<times> int" where
  "center_chunk g centerPos =
     (static_cast_int (x2 centerPos / m_chunkScale g),
      static_cast_int (y2 centerPos / m_chunkScale g))"

definition moved_enough :: "TerrainGenerator \<Rightarrow> vec2 \<Rightarrow> bool" where
  "moved_enough g centerPos =
     (\<not> length2 (sub2 centerPos (m_lastCenterPos g)) < m_chunkScale g * 0.5)"

definition GenerateTerrainAt :: "(vec2 \<Rightarrow> real) \<Rightarrow> TerrainGenerator \<Rightarrow> vec2 \<Rightarrow> TerrainGenerator option" where
  "GenerateTerrainAt simplex g centerPos =
     (if \<not> moved_enough g centerPos then Some g
      else (let g1 = g\<lparr>m_lastCenterPos := centerPos\<rparr>;
                cc = center_chunk g1 centerPos
            in case window_loop simplex g1 (window_coords (fst cc) (snd cc)) (m_chunks g1, False) of
                 None \<Rightarrow> None
               | Some (chunks, newChunksGenerated) \<Rightarrow>
                   (let g2 = CleanupDistantChunks (g1\<lparr>m_chunks := chunks\<rparr>) centerPos
                    in Some (if newChunksGenerated then g2\<lparr>m_terrainUpdated := True\<rparr> else g2))))"

text \<open>
  What one call of \<open>GenerateTerrainAt\<close> does to the set of chunks: the value of the local
  \<open>newChunksGenerated\<close> when the window loops end, and the number of entries that
  \<open>CleanupDistantChunks\<close> erases.
\<close>

definition newChunksGenerated :: "(vec2 \<Rightarrow> real) \<Rightarrow> TerrainGenerator \<Rightarrow> vec2 \<Rightarrow> bool" where
  "newChunksGenerated simplex g centerPos =
     (moved_enough g centerPos \<and>
      (let g1 = g\<lparr>m_lastCenterPos := centerPos\<rparr>;
           cc = center_chunk g1 centerPos
       in case window_loop simplex g1 (window_coords (fst cc) (snd cc)) (m_chunks g1, False) of
            None \<Rightarrow> False
          | Some st \<Rightarrow> snd st))"

definition chunks_created :: "(vec2 \<Rightarrow> real) \<Rightarrow> TerrainGenerator \<Rightarrow> vec2 \<Rightarrow> nat" where
  "chunks_created simplex g centerPos =
     (if \<not> moved_enough g centerPos then 0
      else (let g1 = g\<lparr>m_lastCenterPos := centerPos\<rparr>;
                cc = center_chunk g1 centerPos
            in case window_loop simplex g1 (window_coords (fst cc) (snd cc)) (m_chunks g1, False) of
                 None \<Rightarrow> 0
               | Some st \<Rightarrow> length (fst st) - length (m_chunks g)))"

definition chunks_evicted :: "(vec2 \<Rightarrow> real) \<Rightarrow> TerrainGenerator \<Rightarrow> vec2 \<Rightarrow> nat" where
  "chunks_evicted simplex g centerPos =
     (if \<not> moved_enough g centerPos then 0
      else (let g1 = g\<lparr>m_lastCenterPos := centerPos\<rparr>;
                cc = center_chunk g1 centerPos
            in case window_loop simplex g1 (window_coords (fst cc) (snd cc)) (m_chunks g1, False) of
                 None \<Rightarrow> 0
               | Some st \<Rightarrow> length (filter (is_distant g1 centerPos) (fst st))))"

definition UpdateLOD :: "(vec2 \<Rightarrow> real) \<Rightarrow> TerrainGenerator \<Rightarrow> vec3 \<Rightarrow> TerrainGenerator option" where
  "UpdateLOD simplex g cameraPos = GenerateTerrainAt simplex g (Vec2 (x3 cameraPos) (z3 cameraPos))"

definition HasTerrainUpdated :: "TerrainGenerator \<Rightarrow> bool" where
  "HasTerrainUpdated g = m_terrainUpdated g"

definition ResetTerrainUpdateFlag :: "TerrainGenerator \<Rightarrow> TerrainGenerator" where
  "ResetTerrainUpdateFlag g = g\<lparr>m_terrainUpdated := False\<rparr>"

text \<open>
  \<open>GetCollisionData\<close> clears the two vectors it is given and fills them in one pass
  over \<open>m_chunks\<close>; the pass carries the vectors and \<open>vertexOffset\<close>.
\<close>

definition collect_chunk :: "TerrainChunk option \<Rightarrow> vec3 list \<times> 32 word list \<times> 32 word \<Rightarrow> vec3 list \<times> 32 word list \<times> 32 word" where
  "collect_chunk c st =
     (case c of
        None \<Rightarrow> st
      | Some chunk \<Rightarrow>
          if \<not> isGenerated chunk then st
          else (let (vs, is, vertexOffset) = st
                in (vs @ map position (vertices chunk),
                    is @ map (\<lambda>index. index + vertexOffset) (indices chunk),
                    vertexOffset + of_nat (length (vertices chunk)))))"

definition GetCollisionData :: "TerrainGenerator \<Rightarrow> vec3 list \<Rightarrow> 32 word list \<Rightarrow> vec3 list \<times> 32 word list" where
  "GetCollisionData g vertices_in indices_in =
     (let (vs, is, vertexOffset) = fold collect_chunk (m_chunks g) ([], [], 0)
      in (vs, is))"

text \<open>The public operations that change a generator, and runs of them.\<close>

datatype TerrainOp =
    OpGenerateTerrainAt vec2
  | OpUpdateLOD vec3
  | OpResetTerrainUpdateFlag
  | OpSetNoiseScale real
  | OpSetHeightScale real
  | OpSetOctaves int

fun terrain_step :: "(vec2 \<Rightarrow> real) \<Rightarrow> TerrainGenerator \<Rightarrow> TerrainOp \<Rightarrow> TerrainGenerator option" where
  "terrain_step simplex g (OpGenerateTerrainAt c) = GenerateTerrainAt simplex g c"
| "terrain_step simplex g (OpUpdateLOD p) = UpdateLOD simplex g p"
| "terrain_step simplex g OpResetTerrainUpdateFlag = Some (ResetTerrainUpdateFlag g)"
| "terrain_step simplex g (OpSetNoiseScale s) = Some (SetNoiseScale s g)"
| "terrain_step simplex g (OpSetHeightScale s) = Some (SetHeightScale s g)"
| "terrain_step simplex g (OpSetOctaves n) = Some (SetOctaves n g)"

fun terrain_run :: "(vec2 \<Rightarrow> real) \<Rightarrow> TerrainGenerator \<Rightarrow> TerrainOp list \<Rightarrow> TerrainGenerator option" where
  "terrain_run simplex g [] = Some g"
| "terrain_run simplex g (op # ops) =
     (case terrain_step simplex g op of
        None \<Rightarrow> None
      | Some g' \<Rightarrow> terrain_run simplex g' ops)"

inductive reachable :: "(vec2 \<Rightarrow> real) \<Rightarrow> TerrainGenerator \<Rightarrow> bool" for simplex where
  reachable_new: "reachable simplex (TerrainGenerator_new chunkSize chunkScale)"
| reachable_step: "reachable simplex g \<Longrightarrow> terrain_step simplex g op = Some g' \<Longrightarrow> reachable simplex g'"

section \<open>The layout manager\<close>

record LayoutObject =
  o_position :: vec3
  o_rotation :: vec3
  o_scale :: vec3
  o_type :: string
  o_theme :: string

record LayoutZone =
  center :: vec3
  radius :: real
  theme :: string
  objectPositions :: "vec3 list"
  maxObjects :: int
  minDistance :: real

definition CreateZonedLayout :: "LayoutZone list" where
  "CreateZonedLayout =
     (let coreZone = \<lparr> center = Vec3 0 0 0, radius = 8, theme = ''treasure'',
                        objectPositions = [], maxObjects = 3, minDistance = 2 \<rparr>;
          forestZone = \<lparr> center = Vec3 15 0 15, radius = 12, theme = ''forest'',
                          objectPositions = [], maxObjects = 6, minDistance = 3 \<rparr>;
          desertZone = \<lparr> center = Vec3 15 0 (- 15), radius = 12, theme = ''desert'',
                          objectPositions = [], maxObjects = 4, minDistance = 4 \<rparr>;
          mountainZone = \<lparr> center = Vec3 (- 15) 0 15, radius = 12, theme = ''mountain'',
                            objectPositions = [], maxObjects = 3, minDistance = 5 \<rparr>;
          grasslandZone = \<lparr> center = Vec3 (- 15) 0 (- 15), radius = 12, theme = ''grassland'',
                             objectPositions = [], maxObjects = 5, minDistance = 3.5 \<rparr>
      in [coreZone, forestZone, desertZone, mountainZone, grasslandZone])"

fun CheckMinimumDistance :: "vec3 \<Rightarrow> vec3 list \<Rightarrow> real \<Rightarrow> bool" where
  "CheckMinimumDistance newPos [] minDist = True"
| "CheckMinimumDistance newPos (pos # rest) minDist =
     (let distance = length3 (sub3 newPos pos)
      in if distance < minDist then False else CheckMinimumDistance newPos rest minDist)"

definition IsWithinTerrainBounds :: "vec3 \<Rightarrow> bool" where
  "IsWithinTerrainBounds pos =
     (let terrainSize = 40 in \<bar>x3 pos\<bar> \<le> terrainSize \<and> \<bar>z3 pos\<bar> \<le> terrainSize)"

text \<open>
  \<open>PlaceObjectsInZone\<close> draws from a \<open>std::mt19937\<close> seeded by \<open>std::random_device\<close>.
  The model is given the engine's state (of any type \<open>'g\<close>) and the four distributions
  as functions that return the value drawn and the next state.
\<close>

record 'g Distributions =
  angleDist :: "'g \<Rightarrow> real \<times> 'g"
  radiusDist :: "'g \<Rightarrow> real \<times> 'g"
  treasureTypeDist :: "'g \<Rightarrow> int \<times> 'g"
  typeDist :: "'g \<Rightarrow> int \<times> 'g"

text \<open>
  The \<open>while\<close> loop of one object: at most \<open>maxAttempts = 50\<close> rounds. It returns
  \<open>validPosition\<close>, \<open>position\<close>, \<open>usedPositions\<close> and the engine.
\<close>

function attempt_loop :: "'g Distributions \<Rightarrow> (vec2 \<Rightarrow> real) \<Rightarrow> TerrainGenerator option \<Rightarrow> LayoutZone \<Rightarrow> nat \<Rightarrow> vec3 \<Rightarrow> vec3 list \<Rightarrow> 'g \<Rightarrow> bool \<times> vec3 \<times> vec3 list \<times> 'g" where
  "attempt_loop D simplex terrainGenerator zone attempts pos usedPositions gen =
     (if attempts < 50 then
        (let (angle, gen1) = angleDist D gen;
             (r, gen2) = radiusDist D gen1;
             radius = r * radius zone;
             pos1 = add3 (center zone) (Vec3 (radius * cos angle) 0 (radius * sin angle))
         in if IsWithinTerrainBounds pos1 then
              (let pos2 = PlaceOnTerrain simplex pos1 terrainGenerator 0.5
               in if CheckMinimumDistance pos2 usedPositions (minDistance zone)
                  then (True, pos2, usedPositions @ [pos2], gen2)
                  else attempt_loop D simplex terrainGenerator zone (attempts + 1) pos2 usedPositions gen2)
            else attempt_loop D simplex terrainGenerator zone (attempts + 1) pos1 usedPositions gen2)
      else (False, pos, usedPositions, gen))"
  by pat_completeness auto
termination
  by (relation "measure (\<lambda>(D, simplex, t, zone, attempts, pos, used, gen). 50 - attempts)") auto

declare attempt_loop.simps [simp del]

definition make_object :: "'g Distributions \<Rightarrow> LayoutZone \<Rightarrow> vec3 \<Rightarrow> 'g \<Rightarrow> LayoutObject \<times> 'g" where
  "make_object D zone pos gen =
     (let (yaw, gen1) = angleDist D gen;
          (ty, gen2) =
            (if theme zone = ''treasure''
             then (let (k, gen') = treasureTypeDist D gen1
                   in (if k = 0 then ''chest'' else ''key'', gen'))
             else (let (typeChoice, gen') = typeDist D gen1
                   in (if typeChoice = 0 then ''chest''
                       else if typeChoice = 1 then ''key''
                       else ''decoration'', gen')))
      in (\<lparr> o_position = pos, o_rotation = Vec3 0 yaw 0, o_scale = Vec3 1 1 1,
             o_type = ty, o_theme = theme zone \<rparr>, gen2))"

text \<open>
  One round of the \<open>for\<close> loop over the objects of the zone. \<open>position\<close> is declared
  inside the loop body without a value; the model starts it at the origin, and it is
  read only after an attempt has assigned it.
\<close>

definition place_one :: "'g Distributions \<Rightarrow> (vec2 \<Rightarrow> real) \<Rightarrow> TerrainGenerator option \<Rightarrow> LayoutZone \<Rightarrow> vec3 list \<times> LayoutObject list \<times> 'g \<Rightarrow> vec3 list \<times> LayoutObject list \<times> 'g" where
  "place_one D simplex terrainGenerator zone st =
     (let (usedPositions, objects, gen) = st;
          (validPosition, pos, usedPositions1, gen1) =
             attempt_loop D simplex terrainGenerator zone 0 (Vec3 0 0 0) usedPositions gen
      in if validPosition
         then (let (obj, gen2) = make_object D zone pos gen1
               in (usedPositions1, objects @ [obj], gen2))
         else (usedPositions1, objects, gen1))"

definition PlaceObjectsInZone :: "'g Distributions \<Rightarrow> (vec2 \<Rightarrow> real) \<Rightarrow> TerrainGenerator option \<Rightarrow> LayoutZone \<Rightarrow> LayoutObject list \<Rightarrow> 'g \<Rightarrow> LayoutObject list" where
  "PlaceObjectsInZone D simplex terrainGenerator zone objects gen =
     fst (snd (fold (\<lambda>i st. place_one D simplex terrainGenerator zone st)
                    [0..<nat (maxObjects zone)] ([], objects, gen)))"

section \<open>Auxiliary notions for the proofs\<close>

text \<open>
  The grid coordinates under which the search in \<open>GenerateTerrainAt\<close> finds a chunk:
  those of its first vertex.
\<close>

definition chunk_key :: "real \<Rightarrow> TerrainChunk option \<Rightarrow> (int \<times> int) option" where
  "chunk_key chunkScale c =
     (case c of
        None \<Rightarrow> None
      | Some chunk \<Rightarrow>
          (case vertices chunk of
             [] \<Rightarrow> None
           | v # _ \<Rightarrow> Some (static_cast_int (x3 (position v) / chunkScale),
                            static_cast_int (z3 (position v) / chunkScale))))"

text \<open>
  The coordinates of a window for which the loops create a chunk, given the coordinates
  \<open>ks\<close> that are already taken.
\<close>

fun new_keys :: "(int \<times> int) list \<Rightarrow> (int \<times> int) list \<Rightarrow> (int \<times> int) list" where
  "new_keys ks [] = []"
| "new_keys ks (k # rest) =
     (if k \<in> set ks then new_keys ks rest else k # new_keys (ks @ [k]) rest)"

text \<open>Every index of a chunk names one of its vertices.\<close>

definition chunk_ok :: "TerrainChunk option \<Rightarrow> bool" where
  "chunk_ok c =
     (case c of
        None \<Rightarrow> True
      | Some chunk \<Rightarrow> list_all (\<lambda>i. unat i < length (vertices chunk)) (indices chunk))"

text \<open>
  The position of a vertex as \<open>GenerateChunkVertices\<close> computes it in \<open>float\<close>. The chunk
  store above works with exact numbers; here the lines
  \<open>startX = chunkX * m_chunkScale\<close>, \<open>stepSize = m_chunkScale / (m_chunkSize - 1)\<close>,
  \<open>worldX = startX + x * stepSize\<close> and the body of \<open>GetHeightNoise\<close> are transcribed with
  every conversion from \<open>int\<close>, every \<open>float\<close> literal or member read and every operation
  rounded to IEEE binary32 (round to nearest, ties to even, one rounding per operation).
  \<open>binary32\<close> covers normal and subnormal values; results beyond the largest finite value
  are not modelled. The value \<open>glm::simplex\<close> returns is a \<open>float\<close>, so the value of the
  noise parameter is rounded as well.
\<close>

definition pow2 :: "int \<Rightarrow> real" where
  "pow2 e = (if 0 \<le> e then 2 ^ nat e else 1 / 2 ^ nat (- e))"

definition round_even :: "real \<Rightarrow> int" where
  "round_even x =
     (let f = \<lfloor>x\<rfloor>; d = x - of_int f
      in if d < 1 / 2 then f else if 1 / 2 < d then f + 1 else if even f then f else f + 1)"

definition exponent32 :: "real \<Rightarrow> int" where
  "exponent32 x = max \<lfloor>log 2 \<bar>x\<bar>\<rfloor> (- 126)"

definition binary32 :: "real \<Rightarrow> real" where
  "binary32 x =
     (if x = 0 then 0
      else of_int (round_even (x / pow2 (exponent32 x - 23))) * pow2 (exponent32 x - 23))"

definition stepSize32 :: "real \<Rightarrow> int \<Rightarrow> real" where
  "stepSize32 chunkScale chunkSize = binary32 (chunkScale / binary32 (of_int (chunkSize - 1)))"

definition worldCoord32 :: "real \<Rightarrow> int \<Rightarrow> int \<Rightarrow> nat \<Rightarrow> real" where
  "worldCoord32 chunkScale chunkSize chunk i =
     (let start = binary32 (binary32 (of_int chunk) * chunkScale);
          stepSize = stepSize32 chunkScale chunkSize
      in binary32 (start + binary32 (binary32 (of_nat i) * stepSize)))"

fun octave_loop32 :: "(vec2 \<Rightarrow> real) \<Rightarrow> real \<Rightarrow> real \<Rightarrow> nat \<Rightarrow> real \<Rightarrow> real \<Rightarrow> real \<Rightarrow> real" where
  "octave_loop32 simplex x z 0 height amplitude frequency = height"
| "octave_loop32 simplex x z (Suc n) height amplitude frequency =
     octave_loop32 simplex x z n
       (binary32 (height
          + binary32 (binary32 (simplex (Vec2 (binary32 (x * frequency)) (binary32 (z * frequency))))
                      * amplitude)))
       (binary32 (amplitude * 0.5)) (binary32 (frequency * 2))"

definition GetHeightNoise32 :: "(vec2 \<Rightarrow> real) \<Rightarrow> TerrainGenerator \<Rightarrow> real \<Rightarrow> real \<Rightarrow> real" where
  "GetHeightNoise32 simplex g x z =
     (let height = octave_loop32 simplex x z (nat (m_octaves g)) (binary32 0)
                     (binary32 (m_heightScale g)) (binary32 (m_noiseScale g));
          groundLevel = binary32 (- 0.1)
      in max height groundLevel)"

definition vertex_position32 :: "(vec2 \<Rightarrow> real) \<Rightarrow> TerrainGenerator \<Rightarrow> int \<Rightarrow> int \<Rightarrow> nat \<Rightarrow> nat \<Rightarrow> vec3" where
  "vertex_position32 simplex g chunkX chunkZ x z =
     (let worldX = worldCoord32 (m_chunkScale g) (m_chunkSize g) chunkX x;
          worldZ = worldCoord32 (m_chunkScale g) (m_chunkSize g) chunkZ z;
          height = GetHeightNoise32 simplex g worldX worldZ
      in Vec3 worldX height worldZ)"

text \<open>Noise functions and generators for concrete runs.\<close>

definition flat_simplex :: "vec2 \<Rightarrow> real" where
  "flat_simplex v = 0"

definition slope_simplex :: "vec2 \<Rightarrow> real" where
  "slope_simplex v = max (- 1) (min 1 (x2 v / 4))"

definition cliff_simplex :: "vec2 \<Rightarrow> real" where
  "cliff_simplex v = (if 1 \<le> x2 v then 10 else 0)"

definition ring_simplex :: "vec2 \<Rightarrow> real" where
  "ring_simplex v =
     (if 1 / 4 \<le> x2 v * x2 v + y2 v * y2 v \<and> x2 v * x2 v + y2 v * y2 v \<le> 1 then 10 else 0)"

definition unit_terrain :: TerrainGenerator where
  "unit_terrain = SetOctaves 1 (SetHeightScale 1 (SetNoiseScale 1 (TerrainGenerator_new 16 8)))"

definition scenario_A :: TerrainGenerator where
  "scenario_A = SetOctaves 3 (SetHeightScale 2 (SetNoiseScale 0.1 (TerrainGenerator_new 16 8)))"

definition witness_store :: TerrainGenerator where
  "witness_store = the (GenerateTerrainAt flat_simplex (TerrainGenerator_new 2 1000) (Vec2 0 0))"

text \<open>
  What \<open>GetCollisionData\<close> is meant to return, in the words of its description: the
  chunks that are present and generated, in store order, and their indices, each chunk's
  shifted by the number of vertices of the chunks before it.
\<close>

fun generated_chunks :: "TerrainChunk option list \<Rightarrow> TerrainChunk list" where
  "generated_chunks [] = []"
| "generated_chunks (None # cs) = generated_chunks cs"
| "generated_chunks (Some c # cs) = (if isGenerated c then c # generated_chunks cs else generated_chunks cs)"

fun shifted_indices :: "nat \<Rightarrow> TerrainChunk list \<Rightarrow> 32 word list" where
  "shifted_indices off [] = []"
| "shifted_indices off (c # cs) =
     map (\<lambda>i. i + of_nat off) (indices c) @ shifted_indices (off + length (vertices c)) cs"

text \<open>Two positions are at least \<open>d\<close> apart.\<close>

definition far_apart :: "real \<Rightarrow> vec3 \<Rightarrow> vec3 \<Rightarrow> bool" where
  "far_apart d a b = (d \<le> length3 (sub3 a b))"

text \<open>
  Distributions for a concrete run of \<open>PlaceObjectsInZone\<close>: the engine state counts the
  draws; the first four angles are 0, the later ones \<open>\<pi>\<close>; every radius factor is 1/2.
\<close>

definition witness_dists :: "nat Distributions" where
  "witness_dists =
     \<lparr> angleDist = (\<lambda>n. (if n < 4 then 0 else pi, Suc n)),
       radiusDist = (\<lambda>n. (1 / 2, Suc n)),
       treasureTypeDist = (\<lambda>n. (0, Suc n)),
       typeDist = (\<lambda>n. (2, Suc n)) \<rparr>"

text \<open>
  A run that ends with a call which only evicts: chunk size 2, chunk scale 30, the camera
  first at the origin, then 15 units along \<open>x\<close>.
\<close>

definition evict_before :: TerrainGenerator where
  "evict_before = the (terrain_run flat_simplex (TerrainGenerator_new 2 30)
                         [OpGenerateTerrainAt (Vec2 0 0), OpResetTerrainUpdateFlag])"

definition evict_after :: TerrainGenerator where
  "evict_after = the (GenerateTerrainAt flat_simplex evict_before (Vec2 15 0))"

section \<open>Placement: snapping and the null terrain\<close>

lemma PlaceOnTerrain_Some:
  "PlaceOnTerrain simplex pos (Some t) h =
     Vec3 (x3 pos) (max 0.5 (GetHeightAt simplex t (x3 pos) (z3 pos) + h + 1.0)) (z3 pos)"
  by (simp add: PlaceOnTerrain_def Let_def max_def)

text \<open>
  C4. On a terrain that is not null, \<open>PlaceOnTerrain\<close> keeps the \<open>x\<close> and \<open>z\<close> of its input
  and returns the height \<open>max(0.5, GetHeightAt(x, z) + objectHeight + 1.0)\<close>; at
  \<open>(5, 0, 5)\<close> with object height \<open>1.0\<close> that is \<open>max(0.5, h + 1.0 + 1.0)\<close> for the
  terrain height \<open>h\<close> at \<open>(5, 5)\<close>.
\<close>

theorem place_on_terrain_snaps:
  "x3 (PlaceOnTerrain simplex (Vec3 x y0 z) (Some t) h_obj) = x \<and>
   z3 (PlaceOnTerrain simplex (Vec3 x y0 z) (Some t) h_obj) = z \<and>
   y3 (PlaceOnTerrain simplex (Vec3 x y0 z) (Some t) h_obj) =
     max 0.5 (GetHeightAt simplex t x z + h_obj + 1.0) \<and>
   y3 (PlaceOnTerrain simplex (Vec3 5 0 5) (Some t) 1.0) =
     max 0.5 (GetHeightAt simplex t 5 5 + 1.0 + 1.0)"
  by (simp add: PlaceOnTerrain_Some)

text \<open>
  C9. With a null terrain, \<open>PlaceOnTerrain\<close> returns its input unchanged and
  \<open>IsPositionFlat\<close> returns false, whatever the position, the object height and the
  tolerance. Both are total functions of the model: no error value is involved.
\<close>

theorem null_terrain_is_local:
  "PlaceOnTerrain simplex pos None objectHeight = pos \<and>
   IsPositionFlat simplex pos None tolerance = False"
  by (simp add: PlaceOnTerrain_def IsPositionFlat_def)

section \<open>Flatness\<close>

lemma variation_fold_le:
  "m \<le> d \<Longrightarrow> (\<And>i. i \<in> set is \<Longrightarrow> f i \<le> d) \<Longrightarrow> fold (\<lambda>i maxDiff. max maxDiff (f i)) is m \<le> (d::real)"
  by (induction "is" arbitrary: m) auto

lemma GetAreaHeightVariation_fold:
  "GetAreaHeightVariation simplex c (Some t) r =
     fold (\<lambda>i maxDiff. max maxDiff
             \<bar>GetHeightAt simplex t (x2 (check_sample c r 8 i)) (y2 (check_sample c r 8 i))
               - GetHeightAt simplex t (x3 c) (z3 c)\<bar>) [0..<8] 0"
  by (simp add: GetAreaHeightVariation_def Let_def)

lemma variation_fold_le_iff:
  "fold (\<lambda>i maxDiff. max maxDiff (f i)) is m \<le> (d::real) \<longleftrightarrow> m \<le> d \<and> (\<forall>i \<in> set is. f i \<le> d)"
  by (induction "is" arbitrary: m) auto

lemma GetAreaHeightVariation_le_iff:
  "GetAreaHeightVariation simplex c (Some t) r \<le> d \<longleftrightarrow>
     0 \<le> d \<and>
     (\<forall>i < 8. \<bar>GetHeightAt simplex t (x3 c + r * cos (2 * pi * real i / 8)) (z3 c + r * sin (2 * pi * real i / 8))
               - GetHeightAt simplex t (x3 c) (z3 c)\<bar> \<le> d)"
  unfolding GetAreaHeightVariation_fold variation_fold_le_iff
  by (auto simp: check_sample_def Let_def)

text \<open>
  C7, as amended. \<open>IsPositionFlat\<close> reads the height at the position and at eight points
  evenly spaced on the circle of radius 2 around it, and holds exactly when the
  tolerance is not negative and each of the eight heights differs from the height at
  the position by at most the tolerance (the maximum absolute difference is at most the
  tolerance). So over a terrain of constant height it holds for every tolerance that is
  not negative, and it fails for every tolerance below 10 when the height at one of the
  eight sample points differs from the height at the position by 10 or more.
\<close>

theorem is_position_flat_rule:
  "(IsPositionFlat simplex pos (Some t) tolerance \<longleftrightarrow>
      0 \<le> tolerance \<and>
      (\<forall>i < 8. \<bar>GetHeightAt simplex t (x3 pos + 2 * cos (2 * pi * real i / 8))
                                     (z3 pos + 2 * sin (2 * pi * real i / 8))
                - GetHeightAt simplex t (x3 pos) (z3 pos)\<bar> \<le> tolerance)) \<and>
   ((\<forall>x z. GetHeightAt simplex t x z = c) \<and> 0 \<le> tolerance
      \<longrightarrow> IsPositionFlat simplex pos (Some t) tolerance) \<and>
   (k < 8 \<and> tolerance < 10 \<and>
    10 \<le> \<bar>GetHeightAt simplex t (x3 pos + 2 * cos (2 * pi * real k / 8))
                                (z3 pos + 2 * sin (2 * pi * real k / 8))
           - GetHeightAt simplex t (x3 pos) (z3 pos)\<bar>
      \<longrightarrow> \<not> IsPositionFlat simplex pos (Some t) tolerance)"
proof -
  have rule: "IsPositionFlat simplex pos (Some t) tol \<longleftrightarrow>
      0 \<le> tol \<and>
      (\<forall>i < 8. \<bar>GetHeightAt simplex t (x3 pos + 2 * cos (2 * pi * real i / 8))
                                     (z3 pos + 2 * sin (2 * pi * real i / 8))
                - GetHeightAt simplex t (x3 pos) (z3 pos)\<bar> \<le> tol)" for tol
    by (simp add: IsPositionFlat_def GetAreaHeightVariation_le_iff)
  have const: "(\<forall>x z. GetHeightAt simplex t x z = c) \<and> 0 \<le> tolerance
      \<longrightarrow> IsPositionFlat simplex pos (Some t) tolerance"
    unfolding rule by simp
  have jump: "k < 8 \<and> tolerance < 10 \<and>
    10 \<le> \<bar>GetHeightAt simplex t (x3 pos + 2 * cos (2 * pi * real k / 8))
                                (z3 pos + 2 * sin (2 * pi * real k / 8))
           - GetHeightAt simplex t (x3 pos) (z3 pos)\<bar>
      \<longrightarrow> \<not> IsPositionFlat simplex pos (Some t) tolerance"
    unfolding rule by force
  from rule [of tolerance] const jump show ?thesis by (intro conjI)
qed

lemma unit_terrain_height:
  "GetHeightAt simplex unit_terrain x z = max (simplex (Vec2 x z)) (- 0.1)"
  by (simp add: GetHeightAt_def GetHeightNoise_def unit_terrain_def SetOctaves_def
      SetHeightScale_def SetNoiseScale_def TerrainGenerator_new_def)

lemma new_terrain_flat_height:
  "GetHeightAt flat_simplex (TerrainGenerator_new n s) x z = 0"
  by (simp add: GetHeightAt_def GetHeightNoise_def TerrainGenerator_new_def flat_simplex_def
      eval_nat_numeral)

theorem is_position_flat_rule_witness:
  "IsPositionFlat flat_simplex (Vec3 0 0 0) (Some (TerrainGenerator_new 16 8)) 0 \<and>
   \<not> IsPositionFlat cliff_simplex (Vec3 0 0 0) (Some unit_terrain) 9 \<and>
   IsPositionFlat cliff_simplex (Vec3 0 0 0) (Some unit_terrain) 10"
proof (intro conjI)
  show "IsPositionFlat flat_simplex (Vec3 0 0 0) (Some (TerrainGenerator_new 16 8)) 0"
    using is_position_flat_rule [where simplex = flat_simplex and t = "TerrainGenerator_new 16 8"
        and c = 0 and tolerance = 0 and pos = "Vec3 0 0 0", THEN conjunct2, THEN conjunct1]
    by (simp add: new_terrain_flat_height)
next
  show "\<not> IsPositionFlat cliff_simplex (Vec3 0 0 0) (Some unit_terrain) 9"
    using is_position_flat_rule [where simplex = cliff_simplex and t = unit_terrain
        and tolerance = 9 and pos = "Vec3 0 0 0" and k = 0, THEN conjunct2, THEN conjunct2]
    by (simp add: unit_terrain_height cliff_simplex_def)
next
  have "\<bar>max (cliff_simplex v) (- 0.1) - max (cliff_simplex w) (- 0.1)\<bar> \<le> 10" for v w
    by (simp add: cliff_simplex_def)
  then show "IsPositionFlat cliff_simplex (Vec3 0 0 0) (Some unit_terrain) 10"
    using is_position_flat_rule [where simplex = cliff_simplex and t = unit_terrain
        and tolerance = 10 and pos = "Vec3 0 0 0", THEN conjunct1]
    by (simp add: unit_terrain_height)
qed

lemma circle_square: "(r * cos a) * (r * cos a) + (r * sin a) * (r * sin a) = r * (r::real)"
proof -
  have e: "cos a * cos a + sin a * sin a = 1"
    using sin_cos_squared_add2 [of a] by (simp add: power2_eq_square)
  then show ?thesis by algebra
qed

lemma ring_sample: "ring_simplex (check_sample (Vec3 0 0 0) 2 8 i) = 0"
proof -
  have "x2 (check_sample (Vec3 0 0 0) 2 8 i) * x2 (check_sample (Vec3 0 0 0) 2 8 i)
      + y2 (check_sample (Vec3 0 0 0) 2 8 i) * y2 (check_sample (Vec3 0 0 0) 2 8 i) = 2 * 2"
    unfolding check_sample_def Let_def vec2.sel vec3.sel add_0 by (rule circle_square)
  then show ?thesis by (simp add: ring_simplex_def)
qed

text \<open>
  C7 as stated fails: the height below jumps by 10 on the circles of radius 1/2 and 1
  around the origin, both inside the check radius 2, and the origin is flat for
  tolerance 0, because the centre and the eight sample points are all at height 0.
\<close>

theorem is_position_flat_misses_jump:
  "GetHeightAt ring_simplex unit_terrain (1 / 2) 0 = 10 \<and>
   GetHeightAt ring_simplex unit_terrain (1 / 4) 0 = 0 \<and>
   IsPositionFlat ring_simplex (Vec3 0 0 0) (Some unit_terrain) 0"
proof -
  have "GetAreaHeightVariation ring_simplex (Vec3 0 0 0) (Some unit_terrain) 2 \<le> 0"
    unfolding GetAreaHeightVariation_fold
    by (rule variation_fold_le) (simp_all add: unit_terrain_height ring_sample, simp add: ring_simplex_def)
  then show ?thesis
    by (simp add: IsPositionFlat_def unit_terrain_height ring_simplex_def)
qed

section \<open>The zones\<close>

lemma length3_gt_iff: "0 \<le> c \<Longrightarrow> c < length3 v \<longleftrightarrow> c * c < x3 v * x3 v + y3 v * y3 v + z3 v * z3 v"
  unfolding length3_def
  by (metis real_sqrt_lt_0_iff real_less_rsqrt real_sqrt_less_iff  power2_eq_square real_sqrt_abs2 abs_of_nonneg)

text \<open>
  C8. \<open>CreateZonedLayout\<close> returns five zones: the treasure zone at the origin with
  radius 8 and the forest, desert, mountain and grassland zones with radius 12 at
  \<open>(\<plusminus>15, 0, \<plusminus>15)\<close>. The centres of any two of them are farther apart than the sum
  of their radii.
\<close>

theorem zoned_layout:
  "map (\<lambda>z. (theme z, center z, radius z)) CreateZonedLayout =
     [(''treasure'', Vec3 0 0 0, 8), (''forest'', Vec3 15 0 15, 12), (''desert'', Vec3 15 0 (- 15), 12),
      (''mountain'', Vec3 (- 15) 0 15, 12), (''grassland'', Vec3 (- 15) 0 (- 15), 12)] \<and>
   (\<forall>i < length CreateZonedLayout. \<forall>j < length CreateZonedLayout. i \<noteq> j \<longrightarrow>
      radius (CreateZonedLayout ! i) + radius (CreateZonedLayout ! j)
        < length3 (sub3 (center (CreateZonedLayout ! i)) (center (CreateZonedLayout ! j))))"
  by (auto simp: CreateZonedLayout_def Let_def length3_gt_iff sub3_def less_Suc_eq numeral_eq_Suc)

theorem zoned_layout_witness:
  "(0::nat) < length CreateZonedLayout \<and> (1::nat) < length CreateZonedLayout \<and> (0::nat) \<noteq> 1 \<and>
   radius (CreateZonedLayout ! 0) + radius (CreateZonedLayout ! 1)
     < length3 (sub3 (center (CreateZonedLayout ! 0)) (center (CreateZonedLayout ! 1)))"
proof -
  have l: "(0::nat) < length CreateZonedLayout" "(1::nat) < length CreateZonedLayout"
    by (simp_all add: CreateZonedLayout_def Let_def)
  from zoned_layout have "\<forall>i < length CreateZonedLayout. \<forall>j < length CreateZonedLayout. i \<noteq> j \<longrightarrow>
      radius (CreateZonedLayout ! i) + radius (CreateZonedLayout ! j)
        < length3 (sub3 (center (CreateZonedLayout ! i)) (center (CreateZonedLayout ! j)))"
    by (rule conjunct2)
  with l have "radius (CreateZonedLayout ! 0) + radius (CreateZonedLayout ! 1)
     < length3 (sub3 (center (CreateZonedLayout ! 0)) (center (CreateZonedLayout ! 1)))"
    by (metis zero_neq_one)
  with l show ?thesis by simp
qed

section \<open>Chunks built by \<open>CreateChunk\<close>\<close>

lemma grid_length:
  "length (concat (map (\<lambda>z. map (f z) [0..<n]) [0..<m])) = m * n"
  by (induction m) simp_all

lemma grid_nth:
  "x < n \<Longrightarrow> z < m \<Longrightarrow> concat (map (\<lambda>z. map (f z) [0..<n]) [0..<m]) ! (z * n + x) = f z x"
proof (induction m)
  case 0
  then show ?case by simp
next
  case (Suc m)
  show ?case
  proof (cases "z < m")
    case True
    then have "z * n + x < m * n"
      using Suc.prems(1) by (metis add.commute mult_Suc less_le_trans add_less_cancel_left mult_le_mono1 Suc_leI)
    with True Suc show ?thesis by (simp add: nth_append grid_length)
  next
    case False
    with Suc.prems have "z = m" by simp
    with Suc.prems show ?thesis by (simp add: nth_append grid_length)
  qed
qed

lemma grid_nth_divmod:
  assumes "k < n * n"
  shows "concat (map (\<lambda>z. map (f z) [0..<n]) [0..<n]) ! k = f (k div n) (k mod n)"
proof -
  have n: "0 < n" using assms by (cases n) auto
  have "k div n < n" using assms n by (simp add: less_mult_imp_div_less)
  moreover have "k mod n < n" using n by simp
  ultimately have "concat (map (\<lambda>z. map (f z) [0..<n]) [0..<n]) ! (k div n * n + k mod n) = f (k div n) (k mod n)"
    by (intro grid_nth)
  then show ?thesis by simp
qed

lemma GenerateChunkVertices_vertices:
  "vertices (GenerateChunkVertices simplex g c cx cz) =
     concat (map (\<lambda>z. map (\<lambda>x. chunk_vertex simplex g (real_of_int cx * m_chunkScale g)
                (real_of_int cz * m_chunkScale g) (m_chunkScale g / real_of_int (m_chunkSize g - 1)) x z)
              [0..<nat (m_chunkSize g)]) [0..<nat (m_chunkSize g)])"
  by (simp add: GenerateChunkVertices_def Let_def)

lemma GenerateChunkVertices_length:
  "length (vertices (GenerateChunkVertices simplex g c cx cz)) = nat (m_chunkSize g) * nat (m_chunkSize g)"
  by (simp add: GenerateChunkVertices_vertices grid_length)

lemma quad_indices_bound:
  assumes "x < nat (m_chunkSize g - 1)" "z < nat (m_chunkSize g - 1)" "i \<in> set (quad_indices g x z)"
  shows "unat i < nat (m_chunkSize g) * nat (m_chunkSize g)"
proof -
  define n where "n = nat (m_chunkSize g)"
  have n: "m_chunkSize g = int n" and xz: "x + 1 < n" "z + 1 < n"
    using assms(1,2) by (auto simp: n_def)
  have tl: "int z * m_chunkSize g + int x = int (z * n + x)"
    and bl: "(int z + 1) * m_chunkSize g + int x = int ((z + 1) * n + x)"
    by (simp_all add: n algebra_simps)
  have b1: "(z + 1) * n + x + 1 < n * n"
  proof -
    have "(z + 1) * n + (x + 1) < (z + 1) * n + n" using xz by simp
    also have "\<dots> = (z + 2) * n" by (simp add: algebra_simps)
    also have "\<dots> \<le> n * n"
    proof -
      have "z + 2 \<le> n" using xz by simp
      then show ?thesis by (rule mult_le_mono1)
    qed
    finally show ?thesis by simp
  qed
  have le: "\<And>k. unat (of_nat k :: 32 word) \<le> k"
    by (simp add: unat_of_nat)
  have le1: "\<And>k. unat ((of_nat k :: 32 word) + 1) \<le> k + 1"
    by (metis le of_nat_Suc Suc_eq_plus1 add.commute of_nat_add of_nat_1)
  have "i = of_nat (z * n + x) \<or> i = of_nat (z * n + x) + 1 \<or>
        i = of_nat ((z + 1) * n + x) \<or> i = of_nat ((z + 1) * n + x) + 1"
    using assms(3) unfolding quad_indices_def Let_def tl bl by auto
  moreover have "z * n + x + 1 \<le> (z + 1) * n + x + 1" by simp
  ultimately show ?thesis
    using le [of "z * n + x"] le1 [of "z * n + x"] le [of "(z + 1) * n + x"] le1 [of "(z + 1) * n + x"] b1
    unfolding n_def [symmetric] by (elim disjE) simp_all
qed

lemma GenerateChunkVertices_indices_bound:
  assumes "i \<in> set (indices (GenerateChunkVertices simplex g c cx cz))"
  shows "unat i < length (vertices (GenerateChunkVertices simplex g c cx cz))"
  using assms quad_indices_bound
  by (auto simp: GenerateChunkVertices_length) (auto simp: GenerateChunkVertices_def Let_def)


lemma add_normal_positions:
  "map position (add_normal i n vs) = map position vs"
proof (cases "i < length vs")
  case True
  then have "(map position vs)[i := position (vs ! i)] = map position vs"
    by (metis list_update_id nth_map)
  then show ?thesis by (simp add: add_normal_def map_update)
next
  case False
  then show ?thesis by (simp add: add_normal_def list_update_beyond)
qed

lemma add_normal_length: "length (add_normal i n vs) = length vs"
  by (simp add: add_normal_def)

lemma normals_loop_total:
  "length is mod 3 = 0 \<Longrightarrow> (\<forall>i \<in> set is. unat i < length vs) \<Longrightarrow>
   \<exists>vs'. normals_loop is vs = Some vs' \<and> map position vs' = map position vs"
proof (induction "is" vs rule: normals_loop.induct)
  case (1 vs)
  then show ?case by simp
next
  case (2 a b c rest vs)
  let ?n = "normalize3 (cross3 (sub3 (position (vs ! unat b)) (position (vs ! unat a)))
                               (sub3 (position (vs ! unat c)) (position (vs ! unat a))))"
  let ?vs = "add_normal (unat c) ?n (add_normal (unat b) ?n (add_normal (unat a) ?n vs))"
  have inr: "unat a < length vs \<and> unat b < length vs \<and> unat c < length vs"
    using "2.prems"(2) by simp
  have len: "length ?vs = length vs" by (simp add: add_normal_length)
  have r1: "length rest mod 3 = 0" using "2.prems"(1) by simp
  have r2: "\<forall>i \<in> set rest. unat i < length ?vs" using "2.prems"(2) len by simp
  have "\<exists>vs'. normals_loop rest ?vs = Some vs' \<and> map position vs' = map position ?vs"
    by (rule "2.IH" [OF refl refl refl inr refl refl refl refl r1 r2])
  then obtain vs' where "normals_loop rest ?vs = Some vs'" "map position vs' = map position ?vs"
    by (elim exE conjE)
  then show ?case using inr by (simp add: Let_def add_normal_positions)
qed simp_all

lemma quad_grid_length:
  "length (concat (map (\<lambda>z. concat (map (\<lambda>x. quad_indices g x z) xs)) zs)) = 6 * (length xs * length zs)"
proof (induction zs)
  case Nil
  then show ?case by simp
next
  case (Cons z zs)
  have "length (concat (map (\<lambda>x. quad_indices g x z) xs)) = 6 * length xs"
    by (induction xs) (simp_all add: quad_indices_def Let_def)
  with Cons show ?case by simp
qed

lemma GenerateChunkVertices_indices_length:
  "length (indices (GenerateChunkVertices simplex g c cx cz)) mod 3 = 0"
proof -
  have "length (indices (GenerateChunkVertices simplex g c cx cz))
      = 3 * (2 * (nat (m_chunkSize g - 1) * nat (m_chunkSize g - 1)))"
    by (simp add: GenerateChunkVertices_def Let_def quad_grid_length)
  then show ?thesis by simp
qed

lemma CalculateNormals_total:
  assumes "length (indices c) mod 3 = 0" "\<forall>i \<in> set (indices c). unat i < length (vertices c)"
  shows "\<exists>c'. CalculateNormals c = Some c' \<and> map position (vertices c') = map position (vertices c)
           \<and> indices c' = indices c \<and> isGenerated c' = isGenerated c"
proof -
  let ?vs = "map (\<lambda>v. v\<lparr>normal := Vec3 0 0 0\<rparr>) (vertices c)"
  have "\<forall>i \<in> set (indices c). unat i < length ?vs" using assms(2) by simp
  from normals_loop_total [OF assms(1) this]
  obtain vs' where vs': "normals_loop (indices c) ?vs = Some vs'" "map position vs' = map position ?vs"
    by blast
  have "map position ?vs = map position (vertices c)" by (simp add: comp_def)
  with vs' show ?thesis by (simp add: CalculateNormals_def comp_def)
qed

lemma CreateChunk_total:
  "\<exists>c. CreateChunk simplex g cx cz = Some c \<and>
       map position (vertices c) = map position (vertices (GenerateChunkVertices simplex g ch cx cz)) \<and>
       indices c = indices (GenerateChunkVertices simplex g ch cx cz) \<and> isGenerated c"
proof -
  let ?e = "\<lparr> vertices = [], indices = [], biome = GRASSLAND, isGenerated = False \<rparr>"
  let ?c = "GenerateChunkVertices simplex g ?e cx cz"
  have "\<forall>i \<in> set (indices ?c). unat i < length (vertices ?c)"
    using GenerateChunkVertices_indices_bound by blast
  from CalculateNormals_total [OF GenerateChunkVertices_indices_length this]
  obtain c' where c': "CalculateNormals ?c = Some c'" "map position (vertices c') = map position (vertices ?c)"
    "indices c' = indices ?c"
    by blast
  have same: "vertices ?c = vertices (GenerateChunkVertices simplex g ch cx cz)"
     "indices ?c = indices (GenerateChunkVertices simplex g ch cx cz)"
    by (simp_all add: GenerateChunkVertices_def Let_def)
  show ?thesis
    using c' same by (simp add: CreateChunk_def Let_def AssignBiomeColors_def comp_def)
qed


lemma static_cast_int_of_int: "static_cast_int (real_of_int k) = k"
  by (simp add: static_cast_int_def)

lemma CreateChunk_vertices_length:
  assumes "CreateChunk simplex g cx cz = Some c"
  shows "length (vertices c) = nat (m_chunkSize g) * nat (m_chunkSize g)"
proof -
  from CreateChunk_total [of simplex g cx cz c] assms
  have "map position (vertices c) = map position (vertices (GenerateChunkVertices simplex g c cx cz))"
    by simp
  then have "length (vertices c) = length (vertices (GenerateChunkVertices simplex g c cx cz))"
    by (rule map_eq_imp_length_eq)
  then show ?thesis by (simp add: GenerateChunkVertices_length)
qed

lemma CreateChunk_position:
  assumes "CreateChunk simplex g cx cz = Some c" and "k < nat (m_chunkSize g) * nat (m_chunkSize g)"
  shows "position (vertices c ! k) =
           position (chunk_vertex simplex g (real_of_int cx * m_chunkScale g)
             (real_of_int cz * m_chunkScale g) (m_chunkScale g / real_of_int (m_chunkSize g - 1))
             (k mod nat (m_chunkSize g)) (k div nat (m_chunkSize g)))"
proof -
  let ?gen = "GenerateChunkVertices simplex g c cx cz"
  from CreateChunk_total [of simplex g cx cz c] assms
  have eq: "map position (vertices c) = map position (vertices ?gen)"
    by simp
  have len: "k < length (vertices c)" using assms by (simp add: CreateChunk_vertices_length)
  then have len': "k < length (vertices ?gen)" using assms(2) by (simp add: GenerateChunkVertices_length)
  have "position (vertices c ! k) = map position (vertices c) ! k" using len by simp
  also have "\<dots> = position (vertices ?gen ! k)" unfolding eq using len' by simp
  also have "vertices ?gen ! k = chunk_vertex simplex g (real_of_int cx * m_chunkScale g)
             (real_of_int cz * m_chunkScale g) (m_chunkScale g / real_of_int (m_chunkSize g - 1))
             (k mod nat (m_chunkSize g)) (k div nat (m_chunkSize g))"
    unfolding GenerateChunkVertices_vertices using assms(2) by (rule grid_nth_divmod)
  finally show ?thesis .
qed

lemma CreateChunk_Some: "\<exists>c. CreateChunk simplex g cx cz = Some c"
  using CreateChunk_total [of simplex g cx cz undefined] by blast

lemma chunk_key_created:
  assumes "0 < m_chunkSize g" and "m_chunkScale g \<noteq> 0"
  shows "chunk_key (m_chunkScale g) (CreateChunk simplex g cx cz) = Some (cx, cz)"
proof -
  obtain c where c: "CreateChunk simplex g cx cz = Some c" using CreateChunk_Some by blast
  have pos: "0 < nat (m_chunkSize g) * nat (m_chunkSize g)" using assms(1) by simp
  then have "vertices c \<noteq> []" using CreateChunk_vertices_length [OF c] by auto
  then obtain v vs where v: "vertices c = v # vs" by (cases "vertices c") auto
  have "position v = position (vertices c ! 0)" using v by simp
  also note CreateChunk_position [OF c pos]
  finally have "x3 (position v) = real_of_int cx * m_chunkScale g"
      "z3 (position v) = real_of_int cz * m_chunkScale g"
    by (simp_all add: chunk_vertex_def Let_def)
  then show ?thesis using assms(2) c v
    by (simp add: chunk_key_def static_cast_int_of_int)
qed

lemma chunk_exists_keys:
  "map (chunk_key S) chunks = map Some ks \<Longrightarrow> chunk_exists S x z chunks = Some ((x, z) \<in> set ks)"
proof (induction chunks arbitrary: ks)
  case Nil
  then show ?case by simp
next
  case (Cons c chunks)
  from Cons.prems obtain k ks' where ks: "ks = k # ks'" "chunk_key S c = Some k"
      "map (chunk_key S) chunks = map Some ks'"
    by (cases ks) auto
  from ks(2) obtain ch v vs where c: "c = Some ch" "vertices ch = v # vs"
      "k = (static_cast_int (x3 (position v) / S), static_cast_int (z3 (position v) / S))"
    by (auto simp: chunk_key_def split: option.splits list.splits)
  have abs1: "\<And>a b::int. \<bar>a - b\<bar> < 1 \<longleftrightarrow> a = b" by auto
  show ?case using Cons.IH [OF ks(3)] ks(1) c by (auto simp: abs1)
qed

lemma window_loop_keys:
  assumes "0 < m_chunkSize g" and "m_chunkScale g \<noteq> 0"
  shows "map (chunk_key (m_chunkScale g)) chunks = map Some ks \<Longrightarrow>
         window_loop simplex g coords (chunks, b) =
           Some (chunks @ map (\<lambda>k. CreateChunk simplex g (fst k) (snd k)) (new_keys ks coords),
                 b \<or> new_keys ks coords \<noteq> [])"
proof (induction coords arbitrary: chunks ks b)
  case Nil
  then show ?case by simp
next
  case (Cons k coords)
  obtain x z where k: "k = (x, z)" by (cases k)
  have ex: "chunk_exists (m_chunkScale g) x z chunks = Some ((x, z) \<in> set ks)"
    using Cons.prems by (rule chunk_exists_keys)
  show ?case
  proof (cases "(x, z) \<in> set ks")
    case True
    then have "window_cell simplex g k (chunks, b) = Some (chunks, b)"
      by (simp add: window_cell_def k ex)
    then show ?thesis using Cons.IH [OF Cons.prems] True k by simp
  next
    case False
    obtain c where c: "CreateChunk simplex g x z = Some c" using CreateChunk_Some by blast
    have cell: "window_cell simplex g k (chunks, b) = Some (chunks @ [CreateChunk simplex g x z], True)"
      using False by (simp add: window_cell_def k ex c)
    have "map (chunk_key (m_chunkScale g)) (chunks @ [CreateChunk simplex g x z]) = map Some (ks @ [(x, z)])"
      using Cons.prems chunk_key_created [OF assms] by simp
    from Cons.IH [OF this] show ?thesis using False k cell by simp
  qed
qed

lemma is_distant_created:
  assumes "0 < m_chunkSize g"
  shows "is_distant g' p (CreateChunk simplex g cx cz) =
           (m_renderDistance g' * 1.5 <
              length2 (Vec2 (real_of_int cx * m_chunkScale g
                               + real (nat (m_chunkSize g) * nat (m_chunkSize g) div 2 mod nat (m_chunkSize g))
                                 * (m_chunkScale g / real_of_int (m_chunkSize g - 1)) - x2 p)
                            (real_of_int cz * m_chunkScale g
                               + real (nat (m_chunkSize g) * nat (m_chunkSize g) div 2 div nat (m_chunkSize g))
                                 * (m_chunkScale g / real_of_int (m_chunkSize g - 1)) - y2 p)))"
proof -
  obtain c where c: "CreateChunk simplex g cx cz = Some c" using CreateChunk_Some by blast
  have pos: "0 < nat (m_chunkSize g) * nat (m_chunkSize g)" using assms(1) by simp
  then have ne: "vertices c \<noteq> []" using CreateChunk_vertices_length [OF c] by auto
  have "length (vertices c) div 2 < nat (m_chunkSize g) * nat (m_chunkSize g)"
    using pos by (simp add: CreateChunk_vertices_length [OF c])
  from CreateChunk_position [OF c this]
  show ?thesis using ne c
    by (simp add: is_distant_def Let_def chunk_vertex_def CreateChunk_vertices_length [OF c])
qed


lemma length2_gt_iff:
  assumes "0 \<le> c"
  shows "c < length2 v \<longleftrightarrow> c * c < x2 v * x2 v + y2 v * y2 v"
proof -
  have "c = sqrt (c * c)" using assms by simp
  then have "c < length2 v \<longleftrightarrow> sqrt (c * c) < sqrt (x2 v * x2 v + y2 v * y2 v)"
    by (simp add: length2_def)
  then show ?thesis by (simp only: real_sqrt_less_iff)
qed

lemma length2_lt_iff:
  "length2 v < c \<longleftrightarrow> 0 < c \<and> x2 v * x2 v + y2 v * y2 v < c * c"
proof (cases "0 < c")
  case True
  then have "c = sqrt (c * c)" by simp
  then have "length2 v < c \<longleftrightarrow> sqrt (x2 v * x2 v + y2 v * y2 v) < sqrt (c * c)"
    by (simp add: length2_def)
  then show ?thesis using True by (simp only: real_sqrt_less_iff simp_thms)
next
  case False
  have "0 \<le> length2 v" by (simp add: length2_def)
  with False show ?thesis by simp
qed

lemma GenerateTerrainAt_keys:
  assumes "0 < m_chunkSize g" and "m_chunkScale g \<noteq> 0"
    and "map (chunk_key (m_chunkScale g)) (m_chunks g) = map Some ks"
    and "moved_enough g p"
    and "new = new_keys ks (window_coords (fst (center_chunk g p)) (snd (center_chunk g p)))"
    and "g1 = g\<lparr>m_lastCenterPos := p\<rparr>"
  shows "GenerateTerrainAt simplex g p =
           Some ((CleanupDistantChunks
                    (g1\<lparr>m_chunks := m_chunks g @ map (\<lambda>k. CreateChunk simplex g1 (fst k) (snd k)) new\<rparr>) p)
                 \<lparr>m_terrainUpdated := (m_terrainUpdated g \<or> new \<noteq> [])\<rparr>)"
    and "newChunksGenerated simplex g p = (new \<noteq> [])"
    and "chunks_created simplex g p = length new"
    and "chunks_evicted simplex g p =
           length (filter (is_distant g1 p)
                     (m_chunks g @ map (\<lambda>k. CreateChunk simplex g1 (fst k) (snd k)) new))"
proof -
  have g1: "0 < m_chunkSize g1" "m_chunkScale g1 \<noteq> 0" "m_chunkScale g1 = m_chunkScale g"
      "m_chunks g1 = m_chunks g" "center_chunk g1 p = center_chunk g p"
    using assms by (simp_all add: center_chunk_def)
  have "map (chunk_key (m_chunkScale g1)) (m_chunks g1) = map Some ks"
    using assms(3) g1 by simp
  from window_loop_keys [OF g1(1,2) this, of simplex
      "window_coords (fst (center_chunk g p)) (snd (center_chunk g p))" False]
  have w: "window_loop simplex g1 (window_coords (fst (center_chunk g p)) (snd (center_chunk g p)))
             (m_chunks g, False) =
           Some (m_chunks g @ map (\<lambda>k. CreateChunk simplex g1 (fst k) (snd k)) new, new \<noteq> [])"
    using assms(5) g1 by simp
  show "GenerateTerrainAt simplex g p =
           Some ((CleanupDistantChunks
                    (g1\<lparr>m_chunks := m_chunks g @ map (\<lambda>k. CreateChunk simplex g1 (fst k) (snd k)) new\<rparr>) p)
                 \<lparr>m_terrainUpdated := (m_terrainUpdated g \<or> new \<noteq> [])\<rparr>)"
    using assms(4) w g1 unfolding GenerateTerrainAt_def assms(6) [symmetric]
    by (simp add: Let_def CleanupDistantChunks_def assms(6))
  show "newChunksGenerated simplex g p = (new \<noteq> [])"
    using assms(4) w g1 unfolding newChunksGenerated_def assms(6) [symmetric] by (simp add: Let_def)
  show "chunks_created simplex g p = length new"
    using assms(4) w g1 unfolding chunks_created_def assms(6) [symmetric] by (simp add: Let_def)
  show "chunks_evicted simplex g p =
           length (filter (is_distant g1 p)
                     (m_chunks g @ map (\<lambda>k. CreateChunk simplex g1 (fst k) (snd k)) new))"
    using assms(4) w g1 unfolding chunks_evicted_def assms(6) [symmetric] by (simp add: Let_def)
qed

lemma window_coords_origin:
  "window_coords 0 0 =
     [(-3,-3),(-3,-2),(-3,-1),(-3,0),(-3,1),(-3,2),(-3,3),
      (-2,-3),(-2,-2),(-2,-1),(-2,0),(-2,1),(-2,2),(-2,3),
      (-1,-3),(-1,-2),(-1,-1),(-1,0),(-1,1),(-1,2),(-1,3),
      (0,-3),(0,-2),(0,-1),(0,0),(0,1),(0,2),(0,3),
      (1,-3),(1,-2),(1,-1),(1,0),(1,1),(1,2),(1,3),
      (2,-3),(2,-2),(2,-1),(2,0),(2,1),(2,2),(2,3),
      (3,-3),(3,-2),(3,-1),(3,0),(3,1),(3,2),(3,3)]"
  by (simp add: window_coords_def upto_rec1)

lemma new_keys_fresh: "distinct coords \<Longrightarrow> set coords \<inter> set ks = {} \<Longrightarrow> new_keys ks coords = coords"
  by (induction coords arbitrary: ks) auto

lemma new_keys_present: "set coords \<subseteq> set ks \<Longrightarrow> new_keys ks coords = []"
  by (induction coords arbitrary: ks) auto

lemma window_coords_distinct: "distinct (window_coords a b)"
  by (simp add: window_coords_def distinct_product)

section \<open>Scenario A\<close>

lemma scenario_A_fields:
  "m_chunkSize scenario_A = 16" "m_chunkScale scenario_A = 8" "m_chunks scenario_A = []"
  "m_lastCenterPos scenario_A = Vec2 (- 9999) (- 9999)" "m_renderDistance scenario_A = 100"
  "m_noiseScale scenario_A = 0.1" "m_heightScale scenario_A = 2" "m_octaves scenario_A = 3"
  "m_terrainUpdated scenario_A = False"
  by (simp_all add: scenario_A_def SetOctaves_def SetHeightScale_def SetNoiseScale_def
      TerrainGenerator_new_def)

lemma square_le: "\<bar>a\<bar> \<le> b \<Longrightarrow> a * a \<le> b * (b::real)"
proof -
  assume h: "\<bar>a\<bar> \<le> b"
  have "a * a = \<bar>a\<bar> * \<bar>a\<bar>" by simp
  also have "\<dots> \<le> b * b" using h by (intro mult_mono) auto
  finally show ?thesis .
qed

lemma window_coords_bounds:
  "k \<in> set (window_coords a b) \<Longrightarrow> a - 3 \<le> fst k \<and> fst k \<le> a + 3 \<and> b - 3 \<le> snd k \<and> snd k \<le> b + 3"
  by (cases k) (simp add: window_coords_def)

lemma window_near_origin:
  assumes "m_chunkSize g = 16" and "m_chunkScale g = 8" and "m_renderDistance g' = 100"
    and "k \<in> set (window_coords 0 0)"
  shows "\<not> is_distant g' (Vec2 0 0) (CreateChunk simplex g (fst k) (snd k))"
proof -
  have n: "0 < m_chunkSize g" using assms(1) by simp
  define a where "a = real_of_int (fst k) * 8"
  define c where "c = real_of_int (snd k) * 8 + 64 / 15"
  have d: "is_distant g' (Vec2 0 0) (CreateChunk simplex g (fst k) (snd k)) = (150 < length2 (Vec2 a c))"
    unfolding is_distant_created [OF n] assms(1-3) a_def c_def by simp
  from window_coords_bounds [OF assms(4)]
  have ac: "\<bar>a\<bar> \<le> 24" "\<bar>c\<bar> \<le> 29" by (auto simp: a_def c_def)
  have "a * a \<le> 24 * 24" "c * c \<le> 29 * 29"
    using square_le [OF ac(1)] square_le [OF ac(2)] by simp_all
  then have "\<not> 150 * 150 < a * a + c * c" by simp
  then have "\<not> 150 < length2 (Vec2 a c)"
    by (subst length2_gt_iff) simp_all
  then show ?thesis unfolding d .
qed

text \<open>
  C2. On a fresh generator with chunk size 16, chunk scale 8, noise scale 0.1, height
  scale 2 and 3 octaves, the first \<open>GenerateTerrainAt((0, 0))\<close> creates 49 chunks, one for
  each grid coordinate of the window \<open>[-3..3] \<times> [-3..3]\<close>, and evicts none. The second
  call with the same centre finds that the centre moved less than half a chunk scale,
  creates no chunk and leaves the generator as it is.
\<close>

theorem scenario_A_calls:
  "\<exists>g1. GenerateTerrainAt simplex scenario_A (Vec2 0 0) = Some g1 \<and>
        chunks_created simplex scenario_A (Vec2 0 0) = 49 \<and>
        chunks_evicted simplex scenario_A (Vec2 0 0) = 0 \<and>
        map (chunk_key 8) (m_chunks g1) = map Some (List.product [-3..3] [-3..3]) \<and>
        \<not> moved_enough g1 (Vec2 0 0) \<and>
        GenerateTerrainAt simplex g1 (Vec2 0 0) = Some g1 \<and>
        chunks_created simplex g1 (Vec2 0 0) = 0"
proof -
  define p where "p = Vec2 0 0"
  define ga where "ga = scenario_A\<lparr>m_lastCenterPos := p\<rparr>"
  define cs where "cs = map (\<lambda>k. CreateChunk simplex ga (fst k) (snd k)) (window_coords 0 0)"
  define g1 where "g1 = ga\<lparr>m_chunks := cs, m_terrainUpdated := True\<rparr>"
  have ga: "m_chunkSize ga = 16" "m_chunkScale ga = 8" "m_renderDistance ga = 100"
    by (simp_all add: ga_def scenario_A_fields)
  have moved: "moved_enough scenario_A p"
    by (simp add: moved_enough_def scenario_A_fields length2_lt_iff sub2_def p_def)
  have cc: "center_chunk scenario_A p = (0, 0)"
    by (simp add: center_chunk_def scenario_A_fields static_cast_int_def p_def)
  have new: "window_coords 0 0 = new_keys [] (window_coords (fst (center_chunk scenario_A p)) (snd (center_chunk scenario_A p)))"
    unfolding cc by (simp add: new_keys_fresh window_coords_distinct)
  have keys0: "map (chunk_key (m_chunkScale scenario_A)) (m_chunks scenario_A) = map Some []"
    by (simp add: scenario_A_fields)
  have sz: "0 < m_chunkSize scenario_A" "m_chunkScale scenario_A \<noteq> 0"
    by (simp_all add: scenario_A_fields)
  note call = GenerateTerrainAt_keys [OF sz keys0 moved new ga_def, of simplex]
  have keep: "filter (\<lambda>c. \<not> is_distant g' p c) cs = cs" if "m_renderDistance g' = 100" for g'
    unfolding cs_def p_def using window_near_origin [OF ga(1,2) that] by (simp add: filter_id_conv)
  have none: "filter (is_distant g' p) cs = []" if "m_renderDistance g' = 100" for g'
    unfolding cs_def p_def using window_near_origin [OF ga(1,2) that] by (simp add: filter_empty_conv)
  have len: "length (window_coords 0 0) = 49"
    by (simp add: window_coords_origin)
  then have ne: "window_coords 0 0 \<noteq> []" by auto
  have first: "GenerateTerrainAt simplex scenario_A p = Some g1"
    unfolding call(1) CleanupDistantChunks_def
    by (simp add: scenario_A_fields cs_def [symmetric] keep ga g1_def ne)
  have created: "chunks_created simplex scenario_A p = 49"
    unfolding call(3) by (rule len)
  have evicted: "chunks_evicted simplex scenario_A p = 0"
    unfolding call(4) by (simp add: scenario_A_fields cs_def [symmetric] none ga)
  have keys: "map (chunk_key 8) (m_chunks g1) = map Some (List.product [-3..3] [-3..3])"
  proof -
    have "chunk_key 8 (CreateChunk simplex ga x z) = Some (x, z)" for x z
      using chunk_key_created [of ga simplex x z] ga by simp
    then show ?thesis by (simp add: g1_def cs_def window_coords_def comp_def)
  qed
  have still: "\<not> moved_enough g1 p"
    by (simp add: moved_enough_def g1_def ga_def scenario_A_fields length2_lt_iff sub2_def p_def)
  then have second: "GenerateTerrainAt simplex g1 p = Some g1" "chunks_created simplex g1 p = 0"
    by (simp_all add: GenerateTerrainAt_def chunks_created_def)
  show ?thesis
  proof (intro exI conjI)
    show "GenerateTerrainAt simplex scenario_A (Vec2 0 0) = Some g1" using first unfolding p_def .
    show "chunks_created simplex scenario_A (Vec2 0 0) = 49" using created unfolding p_def .
    show "chunks_evicted simplex scenario_A (Vec2 0 0) = 0" using evicted unfolding p_def .
    show "map (chunk_key 8) (m_chunks g1) = map Some (List.product [-3..3] [-3..3])" by (rule keys)
    show "\<not> moved_enough g1 (Vec2 0 0)" using still unfolding p_def .
    show "GenerateTerrainAt simplex g1 (Vec2 0 0) = Some g1" using second(1) unfolding p_def .
    show "chunks_created simplex g1 (Vec2 0 0) = 0" using second(2) unfolding p_def .
  qed
qed

section \<open>Collision data\<close>

lemma chunk_ok_created: "chunk_ok (CreateChunk simplex g cx cz)"
proof -
  obtain c where c: "CreateChunk simplex g cx cz = Some c" using CreateChunk_Some by blast
  let ?gen = "GenerateChunkVertices simplex g c cx cz"
  from CreateChunk_total [of simplex g cx cz c] c
  have eq: "map position (vertices c) = map position (vertices ?gen)" "indices c = indices ?gen"
    by simp_all
  from eq(1) have "length (vertices c) = length (vertices ?gen)" by (rule map_eq_imp_length_eq)
  then have "\<forall>i \<in> set (indices c). unat i < length (vertices c)"
    using GenerateChunkVertices_indices_bound [of _ simplex g c cx cz] eq(2) by simp
  then show ?thesis by (simp add: chunk_ok_def c list_all_iff)
qed

lemma window_cell_ok:
  assumes "window_cell simplex g xz st = Some st'" and "\<forall>c \<in> set (fst st). chunk_ok c"
  shows "\<forall>c \<in> set (fst st'). chunk_ok c"
proof (cases "chunk_exists (m_chunkScale g) (fst xz) (snd xz) (fst st)")
  case None
  with assms(1) show ?thesis by (simp add: window_cell_def)
next
  case (Some e)
  show ?thesis
  proof (cases e)
    case True
    with Some assms show ?thesis by (simp add: window_cell_def)
  next
    case False
    obtain c where c: "CreateChunk simplex g (fst xz) (snd xz) = Some c"
      using CreateChunk_Some by blast
    have "chunk_ok (Some c)" using chunk_ok_created [of simplex g "fst xz" "snd xz"] c by simp
    with Some False assms c show ?thesis by (auto simp: window_cell_def)
  qed
qed

lemma window_loop_ok:
  "window_loop simplex g coords st = Some st' \<Longrightarrow> \<forall>c \<in> set (fst st). chunk_ok c \<Longrightarrow>
   \<forall>c \<in> set (fst st'). chunk_ok c"
proof (induction coords arbitrary: st)
  case Nil
  then show ?case by simp
next
  case (Cons xz coords)
  from Cons.prems(1) obtain st1 where st1: "window_cell simplex g xz st = Some st1"
      "window_loop simplex g coords st1 = Some st'"
    by (auto split: option.splits)
  from window_cell_ok [OF st1(1) Cons.prems(2)] Cons.IH [OF st1(2)] show ?case by blast
qed

lemma GenerateTerrainAt_ok:
  assumes "GenerateTerrainAt simplex g p = Some g'" and "\<forall>c \<in> set (m_chunks g). chunk_ok c"
  shows "\<forall>c \<in> set (m_chunks g'). chunk_ok c"
proof (cases "moved_enough g p")
  case False
  with assms show ?thesis by (simp add: GenerateTerrainAt_def)
next
  case True
  define g1 where "g1 = g\<lparr>m_lastCenterPos := p\<rparr>"
  define coords where "coords = window_coords (fst (center_chunk g1 p)) (snd (center_chunk g1 p))"
  from assms(1) True obtain chunks b where w: "window_loop simplex g1 coords (m_chunks g1, False) = Some (chunks, b)"
    and g': "m_chunks g' = filter (\<lambda>c. \<not> is_distant (g1\<lparr>m_chunks := chunks\<rparr>) p c) chunks"
    unfolding GenerateTerrainAt_def g1_def coords_def Let_def CleanupDistantChunks_def
    by (auto split: option.splits if_splits)
  have "\<forall>c \<in> set (fst (m_chunks g1, False)). chunk_ok c" using assms(2) by (simp add: g1_def)
  from window_loop_ok [OF w this] show ?thesis unfolding g' by simp
qed

lemma terrain_step_ok:
  assumes "terrain_step simplex g op = Some g'" and "\<forall>c \<in> set (m_chunks g). chunk_ok c"
  shows "\<forall>c \<in> set (m_chunks g'). chunk_ok c"
proof (cases op)
  case (OpGenerateTerrainAt p)
  with assms show ?thesis using GenerateTerrainAt_ok by simp
next
  case (OpUpdateLOD p)
  with assms show ?thesis using GenerateTerrainAt_ok by (simp add: UpdateLOD_def)
next
  case OpResetTerrainUpdateFlag
  with assms show ?thesis by (auto simp: ResetTerrainUpdateFlag_def)
next
  case (OpSetNoiseScale s)
  with assms show ?thesis by (auto simp: SetNoiseScale_def)
next
  case (OpSetHeightScale s)
  with assms show ?thesis by (auto simp: SetHeightScale_def)
next
  case (OpSetOctaves n)
  with assms show ?thesis by (auto simp: SetOctaves_def)
qed

lemma reachable_ok: "reachable simplex g \<Longrightarrow> \<forall>c \<in> set (m_chunks g). chunk_ok c"
proof (induction rule: reachable.induct)
  case (reachable_new chunkSize chunkScale)
  then show ?case by (simp add: TerrainGenerator_new_def)
next
  case (reachable_step g op g')
  then show ?case using terrain_step_ok by blast
qed

lemma unat_add_le: "unat (a + b :: 32 word) \<le> unat a + unat b"
  by (simp add: unat_word_ariths)

lemma unat_of_nat_le: "unat (of_nat n :: 32 word) \<le> n"
  by (simp add: unat_of_nat)

lemma collect_chunk_inv:
  assumes "chunk_ok c" and "\<forall>i \<in> set is. unat i < length vs" and "unat off \<le> length vs"
    and "collect_chunk c (vs, is, off) = (vs', is', off')"
  shows "(\<forall>i \<in> set is'. unat i < length vs') \<and> unat off' \<le> length vs'"
proof (cases c)
  case None
  with assms show ?thesis by (simp add: collect_chunk_def)
next
  case (Some chunk)
  show ?thesis
  proof (cases "isGenerated chunk")
    case False
    with Some assms show ?thesis by (simp add: collect_chunk_def)
  next
    case True
    have ok: "\<forall>i \<in> set (indices chunk). unat i < length (vertices chunk)"
      using assms(1) Some by (simp add: chunk_ok_def list_all_iff)
    have r: "vs' = vs @ map position (vertices chunk)"
        "is' = is @ map (\<lambda>index. index + off) (indices chunk)"
        "off' = off + of_nat (length (vertices chunk))"
      using assms(4) Some True by (simp_all add: collect_chunk_def)
    have "unat (i + off) < length vs + length (vertices chunk)" if "i \<in> set (indices chunk)" for i
      using unat_add_le [of i off] ok that assms(3) by fastforce
    moreover have "unat off' \<le> length vs + length (vertices chunk)"
      unfolding r(3)
      using unat_add_le [of off "of_nat (length (vertices chunk))"]
        unat_of_nat_le [of "length (vertices chunk)"] assms(3) by linarith
    ultimately show ?thesis using assms(2) unfolding r by auto
  qed
qed

lemma collect_fold_inv:
  "\<forall>c \<in> set chunks. chunk_ok c \<Longrightarrow> \<forall>i \<in> set is. unat i < length vs \<Longrightarrow> unat off \<le> length vs \<Longrightarrow>
   fold collect_chunk chunks (vs, is, off) = (vs', is', off') \<Longrightarrow>
   \<forall>i \<in> set is'. unat i < length vs'"
proof (induction chunks arbitrary: vs "is" off)
  case Nil
  then show ?case by simp
next
  case (Cons c chunks)
  obtain vs1 is1 off1 where s1: "collect_chunk c (vs, is, off) = (vs1, is1, off1)"
    by (cases "collect_chunk c (vs, is, off)") auto
  have c: "chunk_ok c" using Cons.prems(1) by simp
  from collect_chunk_inv [OF c Cons.prems(2,3) s1]
  have inv: "\<forall>i \<in> set is1. unat i < length vs1" "unat off1 \<le> length vs1" by simp_all
  have rest: "\<forall>c \<in> set chunks. chunk_ok c" using Cons.prems(1) by simp
  have "fold collect_chunk chunks (vs1, is1, off1) = (vs', is', off')"
    using Cons.prems(4) s1 by simp
  from Cons.IH [OF rest inv this] show ?case .
qed

lemma int_square_ge1: "(a::int) \<noteq> 0 \<Longrightarrow> 1 \<le> real_of_int (a * a)"
proof -
  assume "a \<noteq> 0"
  then have "0 < a * a" by (cases "0 < a") (simp_all add: zero_less_mult_iff)
  then have "1 \<le> a * a" by arith
  then show ?thesis by (simp only: of_int_1_le_iff)
qed

lemma far_chunk:
  fixes a b :: int
  assumes "\<not> (a = 0 \<and> b = - 1)"
  shows "150 * 150 < (real_of_int a * 1000) * (real_of_int a * 1000)
           + (real_of_int b * 1000 + 1000) * (real_of_int b * 1000 + 1000)"
proof -
  define x where "x = real_of_int a * 1000"
  define z where "z = real_of_int b * 1000 + 1000"
  have xx: "x * x = real_of_int (a * a) * 1000000" by (simp add: x_def)
  have zz: "z * z = real_of_int ((b + 1) * (b + 1)) * 1000000" by (simp add: z_def algebra_simps)
  have nn: "0 \<le> x * x" "0 \<le> z * z" by simp_all
  from assms have "a \<noteq> 0 \<or> b + 1 \<noteq> 0" by auto
  then have "150 * 150 < x * x + z * z"
  proof
    assume "a \<noteq> 0"
    from int_square_ge1 [OF this] nn(2) show ?thesis unfolding xx by linarith
  next
    assume "b + 1 \<noteq> 0"
    from int_square_ge1 [OF this] nn(1) show ?thesis unfolding zz by linarith
  qed
  then show ?thesis unfolding x_def z_def .
qed

lemma new_store_fields:
  "m_chunkSize (TerrainGenerator_new n s) = n" "m_chunkScale (TerrainGenerator_new n s) = s"
  "m_chunks (TerrainGenerator_new n s) = []"
  "m_lastCenterPos (TerrainGenerator_new n s) = Vec2 (- 9999) (- 9999)"
  "m_renderDistance (TerrainGenerator_new n s) = 100"
  "m_terrainUpdated (TerrainGenerator_new n s) = False"
  by (simp_all add: TerrainGenerator_new_def)

lemma witness_store_chunks:
  "GenerateTerrainAt flat_simplex (TerrainGenerator_new 2 1000) (Vec2 0 0) = Some witness_store \<and>
   m_chunks witness_store =
     [CreateChunk flat_simplex ((TerrainGenerator_new 2 1000)\<lparr>m_lastCenterPos := Vec2 0 0\<rparr>) 0 (- 1)]"
proof -
  define g0 where "g0 = TerrainGenerator_new 2 1000"
  define p where "p = Vec2 0 0"
  define g1 where "g1 = g0\<lparr>m_lastCenterPos := p\<rparr>"
  have g1: "m_chunkSize g1 = 2" "m_chunkScale g1 = 1000" "m_renderDistance g1 = 100" "0 < m_chunkSize g1"
    by (simp_all add: g1_def g0_def new_store_fields)
  have moved: "moved_enough g0 p"
    by (simp add: moved_enough_def g0_def new_store_fields length2_lt_iff sub2_def p_def)
  have cc: "center_chunk g0 p = (0, 0)"
    by (simp add: center_chunk_def g0_def new_store_fields static_cast_int_def p_def)
  have new: "window_coords 0 0 = new_keys [] (window_coords (fst (center_chunk g0 p)) (snd (center_chunk g0 p)))"
    unfolding cc by (simp add: new_keys_fresh window_coords_distinct)
  have keys0: "map (chunk_key (m_chunkScale g0)) (m_chunks g0) = map Some []"
    by (simp add: g0_def new_store_fields)
  have sz: "0 < m_chunkSize g0" "m_chunkScale g0 \<noteq> 0"
    by (simp_all add: g0_def new_store_fields)
  note call = GenerateTerrainAt_keys(1) [OF sz keys0 moved new g1_def, of flat_simplex]
  have d: "is_distant g' p (CreateChunk flat_simplex g1 a b) = (\<not> (a = 0 \<and> b = - 1))"
    if "m_renderDistance g' = 100" for g' a b
  proof -
    define x where "x = real_of_int a * 1000"
    define z where "z = real_of_int b * 1000 + 1000"
    have e: "is_distant g' p (CreateChunk flat_simplex g1 a b) = (150 < length2 (Vec2 x z))"
      unfolding is_distant_created [OF g1(4)] g1(1,2) that x_def z_def p_def by simp
    have l: "(150 < length2 (Vec2 x z)) = (150 * 150 < x * x + z * z)"
      by (subst length2_gt_iff) simp_all
    show ?thesis
    proof (cases "a = 0 \<and> b = - 1")
      case True
      then show ?thesis unfolding e l by (simp add: x_def z_def)
    next
      case False
      have "150 * 150 < x * x + z * z" using far_chunk [OF False] unfolding x_def z_def .
      then show ?thesis using False unfolding e l by simp
    qed
  qed
  define cs where "cs = map (\<lambda>k. CreateChunk flat_simplex g1 (fst k) (snd k)) (window_coords 0 0)"
  have f: "filter (\<lambda>c. \<not> is_distant g' p c) cs = [CreateChunk flat_simplex g1 0 (- 1)]"
    if "m_renderDistance g' = 100" for g'
    unfolding cs_def window_coords_origin by (simp add: d [OF that])
  have ne: "window_coords 0 0 \<noteq> []" by (simp add: window_coords_origin)
  have g0: "m_chunks g0 = []" "m_terrainUpdated g0 = False" by (simp_all add: g0_def new_store_fields)
  have "GenerateTerrainAt flat_simplex g0 p = Some (g1\<lparr>m_chunks := [CreateChunk flat_simplex g1 0 (- 1)], m_terrainUpdated := True\<rparr>)"
    unfolding call CleanupDistantChunks_def
    by (simp add: g0 cs_def [symmetric] f g1 ne)
  then show ?thesis
    unfolding witness_store_def g0_def [symmetric] p_def [symmetric] by (simp add: g1_def)
qed

lemma small_chunk_indices:
  assumes "m_chunkSize g = 2"
  shows "\<exists>c. CreateChunk simplex g cx cz = Some c \<and> isGenerated c \<and> indices c = [0, 2, 1, 1, 2, 3]
           \<and> length (vertices c) = 4"
proof -
  obtain c where c: "CreateChunk simplex g cx cz = Some c" using CreateChunk_Some by blast
  from CreateChunk_total [of simplex g cx cz c] c
  have "isGenerated c" "indices c = indices (GenerateChunkVertices simplex g c cx cz)" by simp_all
  moreover have "indices (GenerateChunkVertices simplex g c cx cz) = [0, 2, 1, 1, 2, 3]"
    by (simp add: GenerateChunkVertices_def Let_def assms quad_indices_def)
  moreover have "length (vertices c) = 4"
    using CreateChunk_vertices_length [OF c] assms by simp
  ultimately show ?thesis using c by simp
qed

lemma collect_fold_layout:
  "\<exists>off'. fold collect_chunk chunks (vs, is, of_nat n) =
     (vs @ concat (map (\<lambda>c. map position (vertices c)) (generated_chunks chunks)),
      is @ shifted_indices n (generated_chunks chunks), off')"
proof (induction chunks arbitrary: vs "is" n)
  case Nil
  then show ?case by simp
next
  case (Cons c chunks)
  show ?case
  proof (cases c)
    case None
    with Cons.IH [of vs "is" n] show ?thesis by (simp add: collect_chunk_def)
  next
    case (Some ch)
    show ?thesis
    proof (cases "isGenerated ch")
      case False
      with Some Cons.IH [of vs "is" n] show ?thesis by (simp add: collect_chunk_def)
    next
      case True
      have "collect_chunk c (vs, is, of_nat n) =
          (vs @ map position (vertices ch), is @ map (\<lambda>i. i + of_nat n) (indices ch),
           of_nat (n + length (vertices ch)))"
        using Some True by (simp add: collect_chunk_def)
      with Some True
        Cons.IH [of "vs @ map position (vertices ch)" "is @ map (\<lambda>i. i + of_nat n) (indices ch)"
          "n + length (vertices ch)"]
      show ?thesis by simp
    qed
  qed
qed

lemma GetCollisionData_layout:
  "GetCollisionData g vertices_in indices_in =
     (concat (map (\<lambda>c. map position (vertices c)) (generated_chunks (m_chunks g))),
      shifted_indices 0 (generated_chunks (m_chunks g)))"
proof -
  from collect_fold_layout [of "m_chunks g" "[]" "[]" 0]
  obtain off' where "fold collect_chunk (m_chunks g) ([], [], 0) =
     (concat (map (\<lambda>c. map position (vertices c)) (generated_chunks (m_chunks g))),
      shifted_indices 0 (generated_chunks (m_chunks g)), off')"
    by auto
  then show ?thesis by (simp add: GetCollisionData_def)
qed

text \<open>
  C10. In every state that the constructor and the public operations can reach,
  \<open>GetCollisionData\<close> ignores what its two output vectors held before (it clears them),
  returns the positions of the generated chunks' vertices and their indices shifted by
  the cumulative vertex count, and every index it returns is smaller than the number of
  vertices it returns. The indices are \<open>unsigned int\<close>, added modulo \<open>2^32\<close>.
\<close>

theorem collision_indices_in_range:
  "reachable simplex g \<Longrightarrow>
   GetCollisionData g vertices_in indices_in = GetCollisionData g [] [] \<and>
   GetCollisionData g vertices_in indices_in =
     (concat (map (\<lambda>c. map position (vertices c)) (generated_chunks (m_chunks g))),
      shifted_indices 0 (generated_chunks (m_chunks g))) \<and>
   (\<forall>i \<in> set (snd (GetCollisionData g vertices_in indices_in)).
      unat i < length (fst (GetCollisionData g vertices_in indices_in)))"
proof -
  assume r: "reachable simplex g"
  obtain vs "is" off where f: "fold collect_chunk (m_chunks g) ([], [], 0) = (vs, is, off)"
    by (cases "fold collect_chunk (m_chunks g) ([], [], 0)") auto
  have "\<forall>i \<in> set is. unat i < length vs"
    by (rule collect_fold_inv [OF reachable_ok [OF r] _ _ f]) simp_all
  then have "\<forall>i \<in> set (snd (GetCollisionData g vertices_in indices_in)).
      unat i < length (fst (GetCollisionData g vertices_in indices_in))"
    by (simp add: GetCollisionData_def f)
  moreover have "GetCollisionData g vertices_in indices_in = GetCollisionData g [] []"
    by (simp add: GetCollisionData_def)
  ultimately show ?thesis using GetCollisionData_layout [of g vertices_in indices_in] by blast
qed

theorem collision_indices_in_range_witness:
  "reachable flat_simplex witness_store \<and>
   (3 :: 32 word) \<in> set (snd (GetCollisionData witness_store [Vec3 1 1 1] [7])) \<and>
   unat (3 :: 32 word) < length (fst (GetCollisionData witness_store [Vec3 1 1 1] [7]))"
proof -
  have r: "reachable flat_simplex witness_store"
    using reachable_step [OF reachable_new, of flat_simplex 2 1000 "OpGenerateTerrainAt (Vec2 0 0)" witness_store]
      witness_store_chunks by simp
  obtain c where c: "CreateChunk flat_simplex ((TerrainGenerator_new 2 1000)\<lparr>m_lastCenterPos := Vec2 0 0\<rparr>) 0 (- 1) = Some c"
      "isGenerated c" "indices c = [0, 2, 1, 1, 2, 3]"
    using small_chunk_indices [of "(TerrainGenerator_new 2 1000)\<lparr>m_lastCenterPos := Vec2 0 0\<rparr>" flat_simplex 0 "- 1"]
    by (auto simp: new_store_fields)
  have m: "(3 :: 32 word) \<in> set (snd (GetCollisionData witness_store [Vec3 1 1 1] [7]))"
    using witness_store_chunks c by (simp add: GetCollisionData_def collect_chunk_def)
  from collision_indices_in_range [OF r, of "[Vec3 1 1 1]" "[7]"] m r show ?thesis by blast
qed

section \<open>The terrain-updated flag\<close>

lemma window_cell_grows:
  assumes "window_cell simplex g xz st = Some st'"
  shows "length (fst st) \<le> length (fst st') \<and> (snd st' = (snd st \<or> length (fst st) < length (fst st')))"
  using assms unfolding window_cell_def
  by (cases st) (auto split: option.splits bool.splits)

lemma window_loop_grows:
  "window_loop simplex g coords st = Some st' \<Longrightarrow>
   length (fst st) \<le> length (fst st') \<and> (snd st' = (snd st \<or> length (fst st) < length (fst st')))"
proof (induction coords arbitrary: st)
  case Nil
  then show ?case by simp
next
  case (Cons xz coords)
  from Cons.prems obtain st1 where st1: "window_cell simplex g xz st = Some st1"
      "window_loop simplex g coords st1 = Some st'"
    by (auto split: option.splits)
  from window_cell_grows [OF st1(1)] Cons.IH [OF st1(2)] show ?case by auto
qed

lemma newChunksGenerated_iff:
  "newChunksGenerated simplex g c = (0 < chunks_created simplex g c)"
proof (cases "moved_enough g c")
  case False
  then show ?thesis by (simp add: newChunksGenerated_def chunks_created_def)
next
  case True
  define g1 where "g1 = g\<lparr>m_lastCenterPos := c\<rparr>"
  define coords where "coords = window_coords (fst (center_chunk g1 c)) (snd (center_chunk g1 c))"
  show ?thesis
  proof (cases "window_loop simplex g1 coords (m_chunks g1, False)")
    case None
    with True show ?thesis
      by (simp add: newChunksGenerated_def chunks_created_def Let_def g1_def coords_def)
  next
    case (Some st)
    from window_loop_grows [OF Some] have "snd st = (length (m_chunks g) < length (fst st))"
      by (simp add: g1_def)
    with True Some show ?thesis
      by (simp add: newChunksGenerated_def chunks_created_def Let_def g1_def coords_def)
  qed
qed

lemma GenerateTerrainAt_flag:
  assumes "GenerateTerrainAt simplex g c = Some g'"
  shows "m_terrainUpdated g' = (m_terrainUpdated g \<or> newChunksGenerated simplex g c)"
proof (cases "moved_enough g c")
  case False
  with assms show ?thesis by (simp add: GenerateTerrainAt_def newChunksGenerated_def)
next
  case True
  with assms show ?thesis
    unfolding GenerateTerrainAt_def newChunksGenerated_def Let_def CleanupDistantChunks_def
    by (auto split: option.splits if_splits)
qed

lemma terrain_step_keeps_flag:
  assumes "terrain_step simplex g op = Some g'" and "op \<noteq> OpResetTerrainUpdateFlag"
    and "m_terrainUpdated g"
  shows "m_terrainUpdated g'"
proof (cases op)
  case (OpGenerateTerrainAt p)
  with assms GenerateTerrainAt_flag [of simplex g p g'] show ?thesis by simp
next
  case (OpUpdateLOD p)
  with assms GenerateTerrainAt_flag [of simplex g "Vec2 (x3 p) (z3 p)" g'] show ?thesis
    by (simp add: UpdateLOD_def)
next
  case OpResetTerrainUpdateFlag
  with assms show ?thesis by simp
next
  case (OpSetNoiseScale s)
  with assms show ?thesis by (auto simp: SetNoiseScale_def)
next
  case (OpSetHeightScale s)
  with assms show ?thesis by (auto simp: SetHeightScale_def)
next
  case (OpSetOctaves n)
  with assms show ?thesis by (auto simp: SetOctaves_def)
qed

lemma terrain_run_keeps_flag:
  "terrain_run simplex g ops = Some g' \<Longrightarrow> OpResetTerrainUpdateFlag \<notin> set ops \<Longrightarrow>
   m_terrainUpdated g \<Longrightarrow> m_terrainUpdated g'"
proof (induction ops arbitrary: g)
  case Nil
  then show ?case by simp
next
  case (Cons op ops)
  from Cons.prems(1) obtain g1 where g1: "terrain_step simplex g op = Some g1"
      "terrain_run simplex g1 ops = Some g'"
    by (auto split: option.splits)
  have "op \<noteq> OpResetTerrainUpdateFlag" "OpResetTerrainUpdateFlag \<notin> set ops"
    using Cons.prems(2) by auto
  from terrain_step_keeps_flag [OF g1(1) this(1) Cons.prems(3)] Cons.IH [OF g1(2) this(2)]
  show ?case by blast
qed

text \<open>
  What the source does with the flag. When a call of \<open>GenerateTerrainAt\<close> creates a chunk,
  \<open>HasTerrainUpdated\<close> is true after it and after every later run of operations that
  does not contain \<open>ResetTerrainUpdateFlag\<close>; a call that creates no chunk leaves the
  flag as it was, whether or not it evicts; \<open>ResetTerrainUpdateFlag\<close> clears it.
\<close>

theorem terrain_flag_follows_creation:
  "(0 < chunks_created simplex g c \<and> GenerateTerrainAt simplex g c = Some g' \<and>
    OpResetTerrainUpdateFlag \<notin> set ops \<and> terrain_run simplex g' ops = Some g''
      \<longrightarrow> HasTerrainUpdated g'') \<and>
   (chunks_created simplex g c = 0 \<and> GenerateTerrainAt simplex g c = Some g'
      \<longrightarrow> HasTerrainUpdated g' = HasTerrainUpdated g) \<and>
   \<not> HasTerrainUpdated (ResetTerrainUpdateFlag g)"
proof (intro conjI impI)
  assume a: "0 < chunks_created simplex g c \<and> GenerateTerrainAt simplex g c = Some g' \<and>
    OpResetTerrainUpdateFlag \<notin> set ops \<and> terrain_run simplex g' ops = Some g''"
  then have "m_terrainUpdated g'"
    using GenerateTerrainAt_flag [of simplex g c g'] by (simp add: newChunksGenerated_iff)
  with a terrain_run_keeps_flag [of simplex g' ops g''] show "HasTerrainUpdated g''"
    by (simp add: HasTerrainUpdated_def)
next
  assume "chunks_created simplex g c = 0 \<and> GenerateTerrainAt simplex g c = Some g'"
  then show "HasTerrainUpdated g' = HasTerrainUpdated g"
    using GenerateTerrainAt_flag [of simplex g c g']
    by (simp add: newChunksGenerated_iff HasTerrainUpdated_def)
next
  show "\<not> HasTerrainUpdated (ResetTerrainUpdateFlag g)"
    by (simp add: HasTerrainUpdated_def ResetTerrainUpdateFlag_def)
qed

lemma is_distant_small:
  assumes "m_chunkSize g = 2" and "m_renderDistance g' = 100"
  shows "is_distant g' p (CreateChunk simplex g a b) =
           (150 * 150 < (real_of_int a * m_chunkScale g - x2 p) * (real_of_int a * m_chunkScale g - x2 p)
                      + (real_of_int b * m_chunkScale g + m_chunkScale g - y2 p)
                        * (real_of_int b * m_chunkScale g + m_chunkScale g - y2 p))"
proof -
  have n: "0 < m_chunkSize g" using assms(1) by simp
  have "is_distant g' p (CreateChunk simplex g a b) =
          (150 < length2 (Vec2 (real_of_int a * m_chunkScale g - x2 p)
                               (real_of_int b * m_chunkScale g + m_chunkScale g - y2 p)))"
    unfolding is_distant_created [OF n] assms by simp
  also have "\<dots> = (150 * 150 < (real_of_int a * m_chunkScale g - x2 p) * (real_of_int a * m_chunkScale g - x2 p)
                      + (real_of_int b * m_chunkScale g + m_chunkScale g - y2 p)
                        * (real_of_int b * m_chunkScale g + m_chunkScale g - y2 p))"
    by (subst length2_gt_iff) simp_all
  finally show ?thesis .
qed

lemma fresh_call:
  assumes "0 < n" and "0 < s" and "s \<le> 1000"
    and "g1 = (TerrainGenerator_new n s)\<lparr>m_lastCenterPos := Vec2 0 0\<rparr>"
    and "cs = map (\<lambda>k. CreateChunk simplex g1 (fst k) (snd k)) (window_coords 0 0)"
  shows "GenerateTerrainAt simplex (TerrainGenerator_new n s) (Vec2 0 0) =
           Some (g1\<lparr>m_chunks := filter (\<lambda>c. \<not> is_distant (g1\<lparr>m_chunks := cs\<rparr>) (Vec2 0 0) c) cs,
                     m_terrainUpdated := True\<rparr>)"
    and "chunks_created simplex (TerrainGenerator_new n s) (Vec2 0 0) = 49"
    and "map (chunk_key s) cs = map Some (window_coords 0 0)"
proof -
  define g0 where "g0 = TerrainGenerator_new n s"
  define p where "p = Vec2 0 0"
  have g1: "g1 = g0\<lparr>m_lastCenterPos := p\<rparr>" using assms(4) by (simp add: g0_def p_def)
  have "\<not> (2 * 9999 * 9999 < s * s / 4)"
  proof -
    have "s * s \<le> 1000 * 1000" using assms(2,3) by (intro mult_mono) auto
    then show ?thesis by simp
  qed
  then have nl: "\<not> length2 (Vec2 9999 9999) < s * 0.5"
    unfolding length2_lt_iff by simp
  have d: "sub2 p (m_lastCenterPos g0) = Vec2 9999 9999" "m_chunkScale g0 = s"
    by (simp_all add: g0_def new_store_fields sub2_def p_def)
  have moved: "moved_enough g0 p"
    unfolding moved_enough_def d by (rule nl)
  have cc: "center_chunk g0 p = (0, 0)"
    by (simp add: center_chunk_def g0_def new_store_fields static_cast_int_def p_def)
  have new: "window_coords 0 0 = new_keys [] (window_coords (fst (center_chunk g0 p)) (snd (center_chunk g0 p)))"
    unfolding cc by (simp add: new_keys_fresh window_coords_distinct)
  have keys0: "map (chunk_key (m_chunkScale g0)) (m_chunks g0) = map Some []"
    by (simp add: g0_def new_store_fields)
  have sz: "0 < m_chunkSize g0" "m_chunkScale g0 \<noteq> 0"
    using assms(1,2) by (simp_all add: g0_def new_store_fields)
  note call = GenerateTerrainAt_keys [OF sz keys0 moved new g1, of simplex]
  have ne: "window_coords 0 0 \<noteq> []" by (simp add: window_coords_origin)
  have g0: "m_chunks g0 = []" "m_terrainUpdated g0 = False" by (simp_all add: g0_def new_store_fields)
  show "GenerateTerrainAt simplex (TerrainGenerator_new n s) (Vec2 0 0) =
           Some (g1\<lparr>m_chunks := filter (\<lambda>c. \<not> is_distant (g1\<lparr>m_chunks := cs\<rparr>) (Vec2 0 0) c) cs,
                     m_terrainUpdated := True\<rparr>)"
    unfolding g0_def [symmetric] p_def [symmetric] call(1) CleanupDistantChunks_def
    by (simp add: g0 assms(5) [symmetric] ne)
  show "chunks_created simplex (TerrainGenerator_new n s) (Vec2 0 0) = 49"
    unfolding g0_def [symmetric] p_def [symmetric] call(3) by (simp add: window_coords_origin)
  have "chunk_key s (CreateChunk simplex g1 x z) = Some (x, z)" for x z
    using chunk_key_created [of g1 simplex x z] assms(1,2) by (simp add: assms(4) new_store_fields)
  then show "map (chunk_key s) cs = map Some (window_coords 0 0)"
    by (simp add: assms(5) comp_def)
qed

lemma evict_scenario:
  shows "terrain_run flat_simplex (TerrainGenerator_new 2 30)
           [OpGenerateTerrainAt (Vec2 0 0), OpResetTerrainUpdateFlag] = Some evict_before"
    and "chunks_created flat_simplex evict_before (Vec2 15 0) = 0"
    and "chunks_evicted flat_simplex evict_before (Vec2 15 0) = 1"
    and "GenerateTerrainAt flat_simplex evict_before (Vec2 15 0) = Some evict_after"
    and "length (m_chunks evict_before) = 49"
    and "length (m_chunks evict_after) = 48"
    and "m_terrainUpdated evict_after = False"
proof -
  define g1 where "g1 = (TerrainGenerator_new 2 30)\<lparr>m_lastCenterPos := Vec2 0 0\<rparr>"
  define cs where "cs = map (\<lambda>k. CreateChunk flat_simplex g1 (fst k) (snd k)) (window_coords 0 0)"
  have g1: "m_chunkSize g1 = 2" "m_chunkScale g1 = 30" "m_renderDistance g1 = 100"
      "m_lastCenterPos g1 = Vec2 0 0"
    by (simp_all add: g1_def new_store_fields)
  have par: "(0::int) < 2" "(0::real) < 30" "(30::real) \<le> 1000" by simp_all
  note fc = fresh_call [OF par g1_def cs_def]
  have near: "\<not> is_distant g' (Vec2 0 0) (CreateChunk flat_simplex g1 (fst k) (snd k))"
    if "m_renderDistance g' = 100" and k: "k \<in> set (window_coords 0 0)" for g' k
  proof -
    define x where "x = real_of_int (fst k) * 30"
    define z where "z = real_of_int (snd k) * 30 + 30"
    from window_coords_bounds [OF k] have "\<bar>x\<bar> \<le> 90" "\<bar>z\<bar> \<le> 120"
      by (auto simp: x_def z_def)
    from square_le [OF this(1)] square_le [OF this(2)]
    have "\<not> 150 * 150 < x * x + z * z" by simp
    then show ?thesis
      unfolding is_distant_small [OF g1(1) that(1)] g1(2) x_def z_def by simp
  qed
  have keep: "filter (\<lambda>c. \<not> is_distant g' (Vec2 0 0) c) cs = cs" if "m_renderDistance g' = 100" for g'
    unfolding cs_def using near [OF that] by (simp add: filter_id_conv)
  have first: "GenerateTerrainAt flat_simplex (TerrainGenerator_new 2 30) (Vec2 0 0)
           = Some (g1\<lparr>m_chunks := cs, m_terrainUpdated := True\<rparr>)"
    unfolding fc(1) by (simp add: keep g1)
  have run: "terrain_run flat_simplex (TerrainGenerator_new 2 30)
           [OpGenerateTerrainAt (Vec2 0 0), OpResetTerrainUpdateFlag]
         = Some (g1\<lparr>m_chunks := cs, m_terrainUpdated := False\<rparr>)"
    by (simp add: first ResetTerrainUpdateFlag_def)
  then have eb: "evict_before = g1\<lparr>m_chunks := cs, m_terrainUpdated := False\<rparr>"
    unfolding evict_before_def by simp
  show "terrain_run flat_simplex (TerrainGenerator_new 2 30)
           [OpGenerateTerrainAt (Vec2 0 0), OpResetTerrainUpdateFlag] = Some evict_before"
    unfolding eb by (rule run)
  define gb where "gb = g1\<lparr>m_chunks := cs, m_terrainUpdated := False\<rparr>"
  define p where "p = Vec2 15 0"
  define g2 where "g2 = gb\<lparr>m_lastCenterPos := p\<rparr>"
  have gb: "m_chunkSize gb = 2" "m_chunkScale gb = 30" "m_renderDistance gb = 100"
      "m_lastCenterPos gb = Vec2 0 0" "m_chunks gb = cs" "m_terrainUpdated gb = False"
    by (simp_all add: gb_def g1)
  have g2: "m_renderDistance g2 = 100" by (simp add: g2_def gb)
  have nl: "\<not> length2 (Vec2 15 0) < 30 * 0.5"
    unfolding length2_lt_iff by simp
  have d: "sub2 p (m_lastCenterPos gb) = Vec2 15 0"
    by (simp add: gb sub2_def p_def)
  have moved: "moved_enough gb p"
    unfolding moved_enough_def d gb(2) by (rule nl)
  have cc: "center_chunk gb p = (0, 0)"
    by (simp add: center_chunk_def gb static_cast_int_def p_def)
  have new: "[] = new_keys (window_coords 0 0) (window_coords (fst (center_chunk gb p)) (snd (center_chunk gb p)))"
    unfolding cc by (simp add: new_keys_present)
  have keys: "map (chunk_key (m_chunkScale gb)) (m_chunks gb) = map Some (window_coords 0 0)"
    unfolding gb using fc(3) .
  have sz: "0 < m_chunkSize gb" "m_chunkScale gb \<noteq> 0" by (simp_all add: gb)
  note call = GenerateTerrainAt_keys [OF sz keys moved new g2_def, of flat_simplex]
  have far: "is_distant g' p (CreateChunk flat_simplex g1 a b) =
      (22500 < (real_of_int a * 30 - 15) * (real_of_int a * 30 - 15)
             + (real_of_int b * 30 + 30) * (real_of_int b * 30 + 30))"
    if "m_renderDistance g' = 100" for g' a b
    unfolding is_distant_small [OF g1(1) that] g1(2) p_def by simp
  have ev: "filter (is_distant g' p) cs = [CreateChunk flat_simplex g1 (- 3) 3]"
    if "m_renderDistance g' = 100" for g'
    unfolding cs_def window_coords_origin by (simp add: far [OF that])
  have len: "length cs = 49" by (simp add: cs_def window_coords_origin)
  have kept: "length (filter (\<lambda>c. \<not> is_distant g' p c) cs) = 48" if "m_renderDistance g' = 100" for g'
  proof -
    have "length (filter (is_distant g' p) cs) + length (filter (\<lambda>c. \<not> is_distant g' p c) cs) = length cs"
      by (rule sum_length_filter_compl)
    then show ?thesis by (simp add: ev [OF that] len)
  qed
  show "chunks_created flat_simplex evict_before (Vec2 15 0) = 0"
    unfolding eb gb_def [symmetric] p_def [symmetric] call(3) by simp
  show "chunks_evicted flat_simplex evict_before (Vec2 15 0) = 1"
    unfolding eb gb_def [symmetric] p_def [symmetric] call(4) by (simp add: gb ev g2)
  have second: "GenerateTerrainAt flat_simplex gb p =
      Some (g2\<lparr>m_chunks := filter (\<lambda>c. \<not> is_distant (g2\<lparr>m_chunks := cs\<rparr>) p c) cs\<rparr>)"
    unfolding call(1) CleanupDistantChunks_def by (simp add: gb g2_def)
  then have ea: "evict_after = g2\<lparr>m_chunks := filter (\<lambda>c. \<not> is_distant (g2\<lparr>m_chunks := cs\<rparr>) p c) cs\<rparr>"
    unfolding evict_after_def eb gb_def [symmetric] p_def [symmetric] by simp
  show "GenerateTerrainAt flat_simplex evict_before (Vec2 15 0) = Some evict_after"
    unfolding ea unfolding eb gb_def [symmetric] p_def [symmetric] by (rule second)
  show "length (m_chunks evict_before) = 49"
    unfolding eb by (simp add: len)
  show "length (m_chunks evict_after) = 48"
    unfolding ea by (simp add: kept g2)
  show "m_terrainUpdated evict_after = False"
    unfolding ea by (simp add: g2_def gb)
qed

lemma terrain_run_append:
  "terrain_run simplex g (xs @ ys) =
     (case terrain_run simplex g xs of None \<Rightarrow> None | Some g' \<Rightarrow> terrain_run simplex g' ys)"
  by (induction xs arbitrary: g) (auto split: option.splits)

text \<open>
  C1. The claim says that \<open>HasTerrainUpdated\<close> is true from the moment a chunk is
  created or evicted, which is what the header promises of the flag (terrain modified
  since the last query, for users that cache collision meshes). The source sets the flag
  only when a chunk was created. With chunk size 2 and chunk scale 30, after
  \<open>GenerateTerrainAt((0, 0))\<close> and \<open>ResetTerrainUpdateFlag\<close> the store holds 49 chunks;
  \<open>GenerateTerrainAt((15, 0))\<close> creates none, evicts the chunk at grid \<open>(-3, 3)\<close>, and
  \<open>HasTerrainUpdated\<close> is false afterwards.
\<close>

theorem eviction_leaves_flag_clear:
  "terrain_run flat_simplex (TerrainGenerator_new 2 30)
     [OpGenerateTerrainAt (Vec2 0 0), OpResetTerrainUpdateFlag, OpGenerateTerrainAt (Vec2 15 0)]
     = Some evict_after \<and>
   chunks_evicted flat_simplex evict_before (Vec2 15 0) = 1 \<and>
   chunks_created flat_simplex evict_before (Vec2 15 0) = 0 \<and>
   length (m_chunks evict_before) = 49 \<and>
   length (m_chunks evict_after) = 48 \<and>
   \<not> HasTerrainUpdated evict_after"
proof -
  have step: "terrain_run flat_simplex evict_before [OpGenerateTerrainAt (Vec2 15 0)] = Some evict_after"
    by (simp add: evict_scenario(4))
  have "terrain_run flat_simplex (TerrainGenerator_new 2 30)
     ([OpGenerateTerrainAt (Vec2 0 0), OpResetTerrainUpdateFlag] @ [OpGenerateTerrainAt (Vec2 15 0)])
     = Some evict_after"
    unfolding terrain_run_append evict_scenario(1) option.case by (rule step)
  then have run: "terrain_run flat_simplex (TerrainGenerator_new 2 30)
     [OpGenerateTerrainAt (Vec2 0 0), OpResetTerrainUpdateFlag, OpGenerateTerrainAt (Vec2 15 0)]
     = Some evict_after"
    by (simp only: append.simps)
  have "\<not> HasTerrainUpdated evict_after"
    by (simp add: HasTerrainUpdated_def evict_scenario(7))
  with run evict_scenario(2,3,5,6) show ?thesis by (intro conjI)
qed

theorem terrain_flag_follows_creation_witness:
  "0 < chunks_created flat_simplex (TerrainGenerator_new 2 1000) (Vec2 0 0) \<and>
   GenerateTerrainAt flat_simplex (TerrainGenerator_new 2 1000) (Vec2 0 0) = Some witness_store \<and>
   OpResetTerrainUpdateFlag \<notin> set [OpSetOctaves 3] \<and>
   terrain_run flat_simplex witness_store [OpSetOctaves 3] = Some (SetOctaves 3 witness_store) \<and>
   HasTerrainUpdated (SetOctaves 3 witness_store) \<and>
   chunks_created flat_simplex evict_before (Vec2 15 0) = 0 \<and>
   GenerateTerrainAt flat_simplex evict_before (Vec2 15 0) = Some evict_after \<and>
   HasTerrainUpdated evict_after = HasTerrainUpdated evict_before"
proof -
  have par: "(0::int) < 2" "(0::real) < 1000" "(1000::real) \<le> 1000" by simp_all
  have c: "0 < chunks_created flat_simplex (TerrainGenerator_new 2 1000) (Vec2 0 0)"
    using fresh_call(2) [OF par refl refl, of flat_simplex] by simp
  have g: "GenerateTerrainAt flat_simplex (TerrainGenerator_new 2 1000) (Vec2 0 0) = Some witness_store"
    using witness_store_chunks by simp
  have n: "OpResetTerrainUpdateFlag \<notin> set [OpSetOctaves 3]" by simp
  have r: "terrain_run flat_simplex witness_store [OpSetOctaves 3] = Some (SetOctaves 3 witness_store)"
    by simp
  note t1 = terrain_flag_follows_creation [where simplex = flat_simplex
      and g = "TerrainGenerator_new 2 1000" and c = "Vec2 0 0" and g' = witness_store
      and ops = "[OpSetOctaves 3]" and g'' = "SetOctaves 3 witness_store"]
  note t2 = terrain_flag_follows_creation [where simplex = flat_simplex
      and g = evict_before and c = "Vec2 15 0" and g' = evict_after]
  have h1: "HasTerrainUpdated (SetOctaves 3 witness_store)"
    using t1 c g n r by blast
  have h2: "HasTerrainUpdated evict_after = HasTerrainUpdated evict_before"
    using t2 evict_scenario(2,4) by blast
  from c g n r h1 evict_scenario(2,4) h2 show ?thesis by (intro conjI)
qed

section \<open>The centre chunk\<close>

lemma static_cast_int_floor:
  "static_cast_int r = (if 0 \<le> r \<or> r = of_int \<lfloor>r\<rfloor> then \<lfloor>r\<rfloor> else \<lfloor>r\<rfloor> + 1)"
proof (cases "0 \<le> r \<or> r = of_int \<lfloor>r\<rfloor>")
  case True
  then show ?thesis
    by (auto simp: static_cast_int_def) (metis ceiling_of_int)
next
  case False
  then have "\<lceil>r\<rceil> = \<lfloor>r\<rfloor> + 1"
    by (metis ceiling_altdef)
  with False show ?thesis by (simp add: static_cast_int_def)
qed

text \<open>
  C5. The claim says that the centre chunk is \<open>floor(centerPos / chunkScale)\<close>, also for
  negative coordinates. The source converts with \<open>static_cast<int>\<close>, which rounds
  towards zero: with chunk scale 8 the centre \<open>(-4, -4)\<close>, which lies in the chunk with
  grid coordinates \<open>(-1, -1)\<close>, is assigned to chunk \<open>(0, 0)\<close>.
\<close>

theorem center_chunk_truncates:
  "center_chunk (TerrainGenerator_new 16 8) (Vec2 (- 4) (- 4)) = (0, 0) \<and>
   (\<lfloor>x2 (Vec2 (- 4) (- 4)) / m_chunkScale (TerrainGenerator_new 16 8)\<rfloor>,
    \<lfloor>y2 (Vec2 (- 4) (- 4)) / m_chunkScale (TerrainGenerator_new 16 8)\<rfloor>) = (- 1, - 1)"
proof -
  have "\<lceil>- (1 / 2) :: real\<rceil> = 0" "\<lfloor>- (1 / 2) :: real\<rfloor> = - 1"
    by (simp_all add: ceiling_eq_iff floor_eq_iff)
  then show ?thesis
    by (simp add: center_chunk_def static_cast_int_def new_store_fields)
qed

section \<open>Seams between chunks\<close>

lemma pow2_powr: "pow2 e = 2 powr (of_int e)"
proof (cases "0 \<le> e")
  case True
  then have "real_of_int e = real (nat e)" by simp
  then have "2 powr (real_of_int e) = 2 powr (real (nat e))" by (simp only:)
  also have "\<dots> = 2 ^ nat e" by (rule powr_realpow) simp
  finally show ?thesis using True by (simp add: pow2_def)
next
  case False
  then have "real_of_int e = - real (nat (- e))" by simp
  then have "2 powr (real_of_int e) = 2 powr (- real (nat (- e)))" by (simp only:)
  also have "\<dots> = 1 / 2 powr (real (nat (- e)))" by (simp add: powr_minus divide_inverse)
  also have "2 powr (real (nat (- e))) = 2 ^ nat (- e)" by (rule powr_realpow) simp
  finally show ?thesis using False by (simp add: pow2_def)
qed

lemma pow2_pos: "0 < pow2 e"
  by (simp add: pow2_powr)

lemma exponent32_at:
  assumes "pow2 e \<le> \<bar>x\<bar>" and "\<bar>x\<bar> < pow2 (e + 1)" and "- 126 \<le> e"
  shows "exponent32 x = e"
proof -
  have pos: "0 < \<bar>x\<bar>" using assms(1) pow2_pos [of e] by linarith
  have "\<lfloor>log 2 \<bar>x\<bar>\<rfloor> = e"
    using assms(1,2) pos by (simp add: floor_log_eq_powr_iff pow2_powr)
  then show ?thesis using assms(3) by (simp add: exponent32_def)
qed

lemma binary32_at:
  assumes "pow2 e \<le> \<bar>x\<bar>" and "\<bar>x\<bar> < pow2 (e + 1)" and "- 126 \<le> e"
  shows "binary32 x = of_int (round_even (x / pow2 (e - 23))) * pow2 (e - 23)"
proof -
  have "x \<noteq> 0" using assms(1) pow2_pos [of e] by auto
  then show ?thesis by (simp add: binary32_def exponent32_at [OF assms])
qed

lemma b32_41: "binary32 41 = 41"
  by (subst binary32_at [of 5]) (simp_all add: pow2_def round_even_def)

lemma b32_step42: "binary32 (8 / 41) = 3273603 / 16777216"
  by (subst binary32_at [of "- 3"]) (simp_all add: pow2_def round_even_def)

lemma b32_prod42: "binary32 (134217723 / 16777216) = 16777215 / 2097152"
  by (subst binary32_at [of 2]) (simp_all add: pow2_def round_even_def)

lemma b32_last42: "binary32 (16777215 / 2097152) = 16777215 / 2097152"
  by (subst binary32_at [of 2]) (simp_all add: pow2_def round_even_def)

lemma b32_1: "binary32 1 = 1"
  by (subst binary32_at [of 0]) (simp_all add: pow2_def round_even_def)

lemma b32_8: "binary32 8 = 8"
  by (subst binary32_at [of 3]) (simp_all add: pow2_def round_even_def)

lemma b32_0: "binary32 0 = 0"
  by (simp add: binary32_def)

lemma seam42: "worldCoord32 8 42 0 41 = 16777215 / 2097152 \<and> worldCoord32 8 42 1 0 = 8"
  by (simp add: worldCoord32_def stepSize32_def Let_def b32_0 b32_1 b32_8 b32_41 b32_step42
      b32_prod42 b32_last42)

lemma b32_15: "binary32 15 = 15"
  by (subst binary32_at [of 3]) (simp_all add: pow2_def round_even_def)

lemma b32_step16: "binary32 (8 / 15) = 8947849 / 16777216"
  by (subst binary32_at [of "- 1"]) (simp_all add: pow2_def round_even_def)

lemma b32_prod16: "binary32 (134217735 / 16777216) = 8"
  by (subst binary32_at [of 3]) (simp_all add: pow2_def round_even_def)

lemma seam_shipped_binary32:
  "worldCoord32 8 16 0 15 = 8 \<and> worldCoord32 8 16 1 0 = 8"
  by (simp add: worldCoord32_def stepSize32_def Let_def b32_0 b32_1 b32_8 b32_15 b32_step16
      b32_prod16)

text \<open>
  The roundings met when \<open>GetHeightNoise\<close> runs in \<open>float\<close> with the constructor's noise
  scale 0.05, height scale 10 and 4 octaves at \<open>x = 16777215 / 2097152\<close> and at \<open>x = 8\<close>,
  over the noise \<open>slope_simplex\<close>.
\<close>

lemma round32_0: "binary32 (- (1 / 10)) = - (13421773 / 134217728)"
  by (subst binary32_at [of "- 4"]) (simp_all add: pow2_def round_even_def)

lemma round32_1: "binary32 (1 / 20) = 13421773 / 268435456"
  by (subst binary32_at [of "- 5"]) (simp_all add: pow2_def round_even_def)

lemma round32_2: "binary32 (3355443 / 33554432) = 3355443 / 33554432"
  by (subst binary32_at [of "- 4"]) (simp_all add: pow2_def round_even_def)

lemma round32_3: "binary32 (13421773 / 134217728) = 13421773 / 134217728"
  by (subst binary32_at [of "- 4"]) (simp_all add: pow2_def round_even_def)

lemma round32_4: "binary32 (3355443 / 16777216) = 3355443 / 16777216"
  by (subst binary32_at [of "- 3"]) (simp_all add: pow2_def round_even_def)

lemma round32_5: "binary32 (13421773 / 67108864) = 13421773 / 67108864"
  by (subst binary32_at [of "- 3"]) (simp_all add: pow2_def round_even_def)

lemma round32_6: "binary32 (3355443 / 8388608) = 3355443 / 8388608"
  by (subst binary32_at [of "- 2"]) (simp_all add: pow2_def round_even_def)

lemma round32_7: "binary32 (225179971302195 / 562949953421312) = 3355443 / 8388608"
  by (subst binary32_at [of "- 2"]) (simp_all add: pow2_def round_even_def)

lemma round32_8: "binary32 (13421773 / 33554432) = 13421773 / 33554432"
  by (subst binary32_at [of "- 2"]) (simp_all add: pow2_def round_even_def)

lemma round32_9: "binary32 (5 / 8) = 5 / 8"
  by (subst binary32_at [of "- 1"]) (simp_all add: pow2_def round_even_def)

lemma round32_10: "binary32 (3355443 / 4194304) = 3355443 / 4194304"
  by (subst binary32_at [of "- 1"]) (simp_all add: pow2_def round_even_def)

lemma round32_11: "binary32 (225179971302195 / 281474976710656) = 3355443 / 4194304"
  by (subst binary32_at [of "- 1"]) (simp_all add: pow2_def round_even_def)

lemma round32_12: "binary32 (13421773 / 16777216) = 13421773 / 16777216"
  by (subst binary32_at [of "- 1"]) (simp_all add: pow2_def round_even_def)

lemma round32_13: "binary32 (16777215 / 16777216) = 16777215 / 16777216"
  by (subst binary32_at [of "- 1"]) (simp_all add: pow2_def round_even_def)

lemma round32_14: "binary32 1 = 1"
  by (subst binary32_at [of 0]) (simp_all add: pow2_def round_even_def)

lemma round32_15: "binary32 (67108865 / 67108864) = 1"
  by (subst binary32_at [of 0]) (simp_all add: pow2_def round_even_def)

lemma round32_16: "binary32 (5 / 4) = 5 / 4"
  by (subst binary32_at [of 0]) (simp_all add: pow2_def round_even_def)

lemma round32_17: "binary32 (225179971302195 / 140737488355328) = 3355443 / 2097152"
  by (subst binary32_at [of 0]) (simp_all add: pow2_def round_even_def)

lemma round32_18: "binary32 (13421773 / 8388608) = 13421773 / 8388608"
  by (subst binary32_at [of 0]) (simp_all add: pow2_def round_even_def)

lemma round32_19: "binary32 (16777215 / 8388608) = 16777215 / 8388608"
  by (subst binary32_at [of 0]) (simp_all add: pow2_def round_even_def)

lemma round32_20: "binary32 2 = 2"
  by (subst binary32_at [of 1]) (simp_all add: pow2_def round_even_def)

lemma round32_21: "binary32 (5 / 2) = 5 / 2"
  by (subst binary32_at [of 1]) (simp_all add: pow2_def round_even_def)

lemma round32_22: "binary32 (50331645 / 16777216) = 12582911 / 4194304"
  by (subst binary32_at [of 1]) (simp_all add: pow2_def round_even_def)

lemma round32_23: "binary32 3 = 3"
  by (subst binary32_at [of 1]) (simp_all add: pow2_def round_even_def)

lemma round32_24: "binary32 (225179971302195 / 70368744177664) = 3355443 / 1048576"
  by (subst binary32_at [of 1]) (simp_all add: pow2_def round_even_def)

lemma round32_25: "binary32 (13421773 / 4194304) = 13421773 / 4194304"
  by (subst binary32_at [of 1]) (simp_all add: pow2_def round_even_def)

lemma round32_26: "binary32 (67108859 / 16777216) = 16777215 / 4194304"
  by (subst binary32_at [of 1]) (simp_all add: pow2_def round_even_def)

lemma round32_27: "binary32 4 = 4"
  by (subst binary32_at [of 2]) (simp_all add: pow2_def round_even_def)

lemma round32_28: "binary32 5 = 5"
  by (subst binary32_at [of 2]) (simp_all add: pow2_def round_even_def)

lemma round32_29: "binary32 10 = 10"
  by (subst binary32_at [of 3]) (simp_all add: pow2_def round_even_def)

lemmas round32_values =
  round32_0 round32_1 round32_2 round32_3 round32_4 round32_5 round32_6 round32_7
  round32_8 round32_9 round32_10 round32_11 round32_12 round32_13 round32_14 round32_15
  round32_16 round32_17 round32_18 round32_19 round32_20 round32_21 round32_22 round32_23
  round32_24 round32_25 round32_26 round32_27 round32_28 round32_29

lemma slope_height_below:
  "GetHeightNoise32 slope_simplex (TerrainGenerator_new 42 8) (16777215 / 2097152) 0
     = 16777215 / 4194304"
  by (simp add: GetHeightNoise32_def TerrainGenerator_new_def Let_def eval_nat_numeral b32_0
      slope_simplex_def round32_values)

lemma slope_height_at:
  "GetHeightNoise32 slope_simplex (TerrainGenerator_new 42 8) 8 0 = 4"
  by (simp add: GetHeightNoise32_def TerrainGenerator_new_def Let_def eval_nat_numeral b32_0
      slope_simplex_def round32_values)

text \<open>
  C6. The claim says that the last column of chunk \<open>(cx, cz)\<close> and the first column of
  chunk \<open>(cx + 1, cz)\<close> get the same world coordinate, hence the same height. In the
  \<open>float\<close> arithmetic of the source that depends on the parameters. With chunk size 16 and
  chunk scale 8 both coordinates are 8 (lemma \<open>seam_shipped_binary32\<close>). With chunk size 42
  and chunk scale 8, chunk 0 computes \<open>0 + 41 * (8 / 41)\<close> as \<open>16777215 / 2097152\<close>, one unit
  in the last place below the 8 that chunk 1 computes for the same vertex; over a noise that
  rises with \<open>x\<close> the two chunks then store the heights \<open>16777215 / 4194304\<close> and 4.
\<close>

theorem seam_breaks_at_42:
  "worldCoord32 8 42 0 41 = 16777215 / 2097152 \<and>
   worldCoord32 8 42 (0 + 1) 0 = 8 \<and>
   vertex_position32 slope_simplex (TerrainGenerator_new 42 8) 0 0 41 0
     = Vec3 (16777215 / 2097152) (16777215 / 4194304) 0 \<and>
   vertex_position32 slope_simplex (TerrainGenerator_new 42 8) (0 + 1) 0 0 0 = Vec3 8 4 0"
proof -
  have z: "worldCoord32 8 42 0 0 = 0"
    by (simp add: worldCoord32_def stepSize32_def Let_def b32_0 b32_41 b32_step42)
  have c1: "worldCoord32 8 42 0 41 = 16777215 / 2097152" and c2: "worldCoord32 8 42 (0 + 1) 0 = 8"
    using seam42 by simp_all
  have v1: "vertex_position32 slope_simplex (TerrainGenerator_new 42 8) 0 0 41 0
     = Vec3 (16777215 / 2097152) (16777215 / 4194304) 0"
    unfolding vertex_position32_def Let_def new_store_fields c1 z slope_height_below ..
  have v2: "vertex_position32 slope_simplex (TerrainGenerator_new 42 8) (0 + 1) 0 0 0 = Vec3 8 4 0"
    unfolding vertex_position32_def Let_def new_store_fields c2 z slope_height_at ..
  from c1 c2 v1 v2 show ?thesis by (intro conjI)
qed

section \<open>Spacing of placed objects\<close>

lemma length3_lt_iff:
  "length3 v < c \<longleftrightarrow> 0 < c \<and> x3 v * x3 v + y3 v * y3 v + z3 v * z3 v < c * c"
proof (cases "0 < c")
  case True
  then have "c = sqrt (c * c)" by simp
  then have "length3 v < c \<longleftrightarrow> sqrt (x3 v * x3 v + y3 v * y3 v + z3 v * z3 v) < sqrt (c * c)"
    by (simp add: length3_def)
  then show ?thesis using True by (simp only: real_sqrt_less_iff simp_thms)
next
  case False
  have "0 \<le> length3 v" by (simp add: length3_def)
  with False show ?thesis by simp
qed

lemma length3_sub3_commute: "length3 (sub3 a b) = length3 (sub3 b a)"
proof -
  have "(x - y) * (x - y) = (y - x) * (y - x)" for x y :: real by (simp add: algebra_simps)
  then show ?thesis by (simp add: length3_def sub3_def)
qed

lemma CheckMinimumDistance_iff:
  "CheckMinimumDistance p used d = (\<forall>q \<in> set used. \<not> length3 (sub3 p q) < d)"
  by (induction used) (simp_all add: Let_def)

lemma attempt_loop_result:
  "n = 50 - attempts \<Longrightarrow>
   attempt_loop D simplex t zone attempts pos used gen = (valid, pos', used', gen') \<Longrightarrow>
   (valid \<longrightarrow> used' = used @ [pos'] \<and> CheckMinimumDistance pos' used (minDistance zone)) \<and>
   (\<not> valid \<longrightarrow> used' = used)"
proof (induction n arbitrary: attempts pos used gen)
  case 0
  then have "\<not> attempts < 50" by simp
  with "0.prems"(2) show ?case by (simp add: attempt_loop.simps)
next
  case (Suc n)
  then have lt: "attempts < 50" and n: "n = 50 - (attempts + 1)" by simp_all
  define gen1 where "gen1 = snd (angleDist D gen)"
  define gen2 where "gen2 = snd (radiusDist D gen1)"
  define pos1 where "pos1 = add3 (center zone)
      (Vec3 (fst (radiusDist D gen1) * radius zone * cos (fst (angleDist D gen))) 0
            (fst (radiusDist D gen1) * radius zone * sin (fst (angleDist D gen))))"
  define pos2 where "pos2 = PlaceOnTerrain simplex pos1 t 0.5"
  have unfold: "attempt_loop D simplex t zone attempts pos used gen =
      (if IsWithinTerrainBounds pos1 then
         if CheckMinimumDistance pos2 used (minDistance zone)
         then (True, pos2, used @ [pos2], gen2)
         else attempt_loop D simplex t zone (attempts + 1) pos2 used gen2
       else attempt_loop D simplex t zone (attempts + 1) pos1 used gen2)"
    by (subst attempt_loop.simps)
       (simp add: lt Let_def case_prod_beta gen1_def gen2_def pos1_def pos2_def)
  show ?case
  proof (cases "IsWithinTerrainBounds pos1")
    case False
    with Suc.prems(2) have "attempt_loop D simplex t zone (attempts + 1) pos1 used gen2 = (valid, pos', used', gen')"
      by (simp add: unfold)
    from Suc.IH [OF n this] show ?thesis .
  next
    case True
    show ?thesis
    proof (cases "CheckMinimumDistance pos2 used (minDistance zone)")
      case False
      with True Suc.prems(2) have "attempt_loop D simplex t zone (attempts + 1) pos2 used gen2 = (valid, pos', used', gen')"
        by (simp add: unfold)
      from Suc.IH [OF n this] show ?thesis .
    next
      case c: True
      with True Suc.prems(2) show ?thesis by (auto simp: unfold)
    qed
  qed
qed

lemma make_object_position: "o_position (fst (make_object D zone pos gen)) = pos"
  by (simp add: make_object_def Let_def case_prod_beta)

lemma place_one_inv:
  assumes "place_one D simplex t zone (used, objects, gen) = (used', objects', gen')"
    and "map o_position (drop k objects) = used" and "k \<le> length objects"
    and "sorted_wrt (far_apart (minDistance zone)) used"
  shows "map o_position (drop k objects') = used' \<and> take k objects' = take k objects \<and>
         k \<le> length objects' \<and> sorted_wrt (far_apart (minDistance zone)) used'"
proof -
  obtain valid pos used1 gen1 where al:
      "attempt_loop D simplex t zone 0 (Vec3 0 0 0) used gen = (valid, pos, used1, gen1)"
    by (cases "attempt_loop D simplex t zone 0 (Vec3 0 0 0) used gen") auto
  note r = attempt_loop_result [OF refl al]
  show ?thesis
  proof (cases valid)
    case False
    with assms al r show ?thesis by (simp add: place_one_def)
  next
    case True
    obtain obj gen2 where mo: "make_object D zone pos gen1 = (obj, gen2)"
      by (cases "make_object D zone pos gen1") auto
    have op: "o_position obj = pos" using make_object_position [of D zone pos gen1] mo by simp
    have res: "used' = used @ [pos]" "objects' = objects @ [obj]"
      using assms(1) al True mo r by (simp_all add: place_one_def)
    have "\<forall>q \<in> set used. far_apart (minDistance zone) q pos"
      using r True
      by (auto simp: CheckMinimumDistance_iff far_apart_def length3_sub3_commute [of _ pos])
    then have "sorted_wrt (far_apart (minDistance zone)) (used @ [pos])"
      using assms(4) by (simp add: sorted_wrt_append)
    then show ?thesis using assms(2,3) op unfolding res by simp
  qed
qed

lemma place_fold_inv:
  "fold (\<lambda>i st. place_one D simplex t zone st) is (used, objects, gen) = (used', objects', gen') \<Longrightarrow>
   map o_position (drop k objects) = used \<Longrightarrow> k \<le> length objects \<Longrightarrow>
   sorted_wrt (far_apart (minDistance zone)) used \<Longrightarrow>
   map o_position (drop k objects') = used' \<and> take k objects' = take k objects \<and>
   sorted_wrt (far_apart (minDistance zone)) used'"
proof (induction "is" arbitrary: used objects gen)
  case Nil
  then show ?case by simp
next
  case (Cons i "is")
  obtain u1 o1 g1 where p1: "place_one D simplex t zone (used, objects, gen) = (u1, o1, g1)"
    by (cases "place_one D simplex t zone (used, objects, gen)") auto
  from place_one_inv [OF p1 Cons.prems(2,3,4)]
  have inv: "map o_position (drop k o1) = u1" "take k o1 = take k objects" "k \<le> length o1"
      "sorted_wrt (far_apart (minDistance zone)) u1" by simp_all
  have "fold (\<lambda>i st. place_one D simplex t zone st) is (u1, o1, g1) = (used', objects', gen')"
    using Cons.prems(1) p1 by simp
  from Cons.IH [OF this inv(1,3,4)] inv(2) show ?case by simp
qed

text \<open>
  C3. \<open>PlaceObjectsInZone\<close> appends to the objects it is given. Any two different
  objects it appends in one run are at least \<open>zone.minDistance\<close> apart, measured in
  3D between the positions after snapping; and \<open>CheckMinimumDistance\<close>, which every
  accepted candidate has passed against the positions accepted before it, fails for a
  candidate closer than \<open>minDistance\<close> to one of them.
\<close>

theorem placed_objects_spaced:
  assumes "placed = drop (length objects) (PlaceObjectsInZone D simplex t zone objects gen)"
    and "i < length placed" and "j < length placed" and "i \<noteq> j"
  shows "take (length objects) (PlaceObjectsInZone D simplex t zone objects gen) = objects \<and>
         minDistance zone \<le> length3 (sub3 (o_position (placed ! i)) (o_position (placed ! j))) \<and>
         (\<forall>c used q. q \<in> set used \<and> length3 (sub3 c q) < minDistance zone
            \<longrightarrow> \<not> CheckMinimumDistance c used (minDistance zone))"
proof -
  obtain used' objects' gen' where f:
      "fold (\<lambda>i st. place_one D simplex t zone st) [0..<nat (maxObjects zone)] ([], objects, gen)
         = (used', objects', gen')"
    by (cases "fold (\<lambda>i st. place_one D simplex t zone st) [0..<nat (maxObjects zone)] ([], objects, gen)") auto
  have res: "PlaceObjectsInZone D simplex t zone objects gen = objects'"
    by (simp add: PlaceObjectsInZone_def f)
  from place_fold_inv [OF f, of "length objects"]
  have inv: "map o_position (drop (length objects) objects') = used'"
      "take (length objects) objects' = objects"
      "sorted_wrt (far_apart (minDistance zone)) used'" by simp_all
  have pl: "map o_position placed = used'" using assms(1) inv(1) res by simp
  then have len: "length used' = length placed" by (metis length_map)
  have nth: "used' ! k = o_position (placed ! k)" if "k < length placed" for k
    using pl that by (metis nth_map)
  have far: "far_apart (minDistance zone) (used' ! a) (used' ! b)" if "a < b" "b < length used'" for a b
    using inv(3) that by (simp add: sorted_wrt_iff_nth_less)
  have "minDistance zone \<le> length3 (sub3 (o_position (placed ! i)) (o_position (placed ! j)))"
  proof (cases "i < j")
    case True
    from far [OF True] assms(3) len show ?thesis
      by (simp add: far_apart_def nth assms(2,3))
  next
    case False
    with assms(4) have "j < i" by simp
    from far [OF this] assms(2) len show ?thesis
      by (simp add: far_apart_def nth assms(2,3) length3_sub3_commute [of "o_position (placed ! i)"])
  qed
  then show ?thesis using inv(2) res by (auto simp: CheckMinimumDistance_iff)
qed

lemma upt3: "[0..<3] = [0, 1, 2]"
  by code_simp

lemma core_zone:
  "center (CreateZonedLayout ! 0) = Vec3 0 0 0" "radius (CreateZonedLayout ! 0) = 8"
  "theme (CreateZonedLayout ! 0) = ''treasure''" "maxObjects (CreateZonedLayout ! 0) = 3"
  "minDistance (CreateZonedLayout ! 0) = 2"
  by (simp_all add: CreateZonedLayout_def Let_def)

lemma witness_placement:
  "map o_position (PlaceObjectsInZone witness_dists flat_simplex (Some (TerrainGenerator_new 16 8))
       (CreateZonedLayout ! 0) [] 0) = [Vec3 4 (3 / 2) 0, Vec3 (- 4) (3 / 2) 0]"
  by (simp add: PlaceObjectsInZone_def core_zone upt3 place_one_def attempt_loop.simps
      witness_dists_def Let_def add3_def IsWithinTerrainBounds_def PlaceOnTerrain_Some
      new_terrain_flat_height CheckMinimumDistance_iff length3_lt_iff sub3_def make_object_def)

theorem placed_objects_spaced_witness:
  "(0::nat) < length (PlaceObjectsInZone witness_dists flat_simplex (Some (TerrainGenerator_new 16 8))
       (CreateZonedLayout ! 0) [] 0) \<and>
   (1::nat) < length (PlaceObjectsInZone witness_dists flat_simplex (Some (TerrainGenerator_new 16 8))
       (CreateZonedLayout ! 0) [] 0) \<and>
   (0::nat) \<noteq> 1 \<and>
   minDistance (CreateZonedLayout ! 0)
     \<le> length3 (sub3
          (o_position (PlaceObjectsInZone witness_dists flat_simplex (Some (TerrainGenerator_new 16 8))
             (CreateZonedLayout ! 0) [] 0 ! 0))
          (o_position (PlaceObjectsInZone witness_dists flat_simplex (Some (TerrainGenerator_new 16 8))
             (CreateZonedLayout ! 0) [] 0 ! 1))) \<and>
   Vec3 1 0 0 \<in> set [Vec3 1 0 0] \<and>
   length3 (sub3 (Vec3 0 0 0) (Vec3 1 0 0)) < minDistance (CreateZonedLayout ! 0) \<and>
   \<not> CheckMinimumDistance (Vec3 0 0 0) [Vec3 1 0 0] (minDistance (CreateZonedLayout ! 0))"
proof -
  define P where "P = PlaceObjectsInZone witness_dists flat_simplex (Some (TerrainGenerator_new 16 8))
       (CreateZonedLayout ! 0) [] 0"
  have "length (map o_position P) = 2" unfolding P_def witness_placement by simp
  then have len: "(0::nat) < length P" "(1::nat) < length P" by simp_all
  have d: "P = drop (length ([] :: LayoutObject list)) P" by simp
  have ne: "(0::nat) \<noteq> 1" by simp
  have near: "Vec3 1 0 0 \<in> set [Vec3 1 0 0]"
      "length3 (sub3 (Vec3 0 0 0) (Vec3 1 0 0)) < minDistance (CreateZonedLayout ! 0)"
    by (simp_all add: core_zone length3_lt_iff sub3_def)
  note t = placed_objects_spaced [OF d [unfolded P_def] len [unfolded P_def] ne]
  from t have a: "minDistance (CreateZonedLayout ! 0)
     \<le> length3 (sub3 (o_position (P ! 0)) (o_position (P ! 1)))"
    unfolding P_def by (rule conjunct1 [OF conjunct2])
  from t near have b: "\<not> CheckMinimumDistance (Vec3 0 0 0) [Vec3 1 0 0] (minDistance (CreateZonedLayout ! 0))"
    by blast
  from len ne a near b show ?thesis unfolding P_def by (intro conjI)
qed

end
